theory Spec2Isabelle
  imports Main
begin

section \<open>Requisition model of onmsctl (model/provisioning.go)\<close>

text \<open>
  The Go package \<^verbatim>\<open>model\<close> describes a requisition as a tree of structs and validates
  it with \<^verbatim>\<open>IsValid\<close> methods that fill in defaults while they check. The embedding
  follows the source function by function.

  \<^item> A Go \<^verbatim>\<open>string\<close> is a byte sequence, here \<^typ>\<open>string\<close>.
  \<^item> A Go \<^verbatim>\<open>error\<close> built by \<^verbatim>\<open>fmt.Errorf\<close> is its message, and \<^verbatim>\<open>nil\<close> is \<^const>\<open>None\<close>.
  \<^item> A method with a pointer receiver returns the receiver as it has left it, also when it
    fails. A method with a value receiver works on a copy of the struct, but a slice field
    of the copy shares its elements with the original, so writes through
    \<^verbatim>\<open>&s.MetaData[i]\<close> reach the caller; writes to a copied element
    (\<^verbatim>\<open>m := intf.MetaData[i]\<close>) do not.
  \<^item> \<^verbatim>\<open>Status\<close> is a Go \<^verbatim>\<open>int\<close> that is only compared and printed, so it is an \<^typ>\<open>int\<close>.
  \<^item> A method \<^verbatim>\<open>T.IsValid\<close> is the function \<open>T_IsValid\<close>. The fields of a struct keep their
    names behind a prefix for the struct (\<open>md_\<close>, \<open>svc_\<close>, \<open>asset_\<close>, \<open>cat_\<close>, \<open>intf_\<close>,
    \<open>node_\<close>, \<open>req_\<close>), since several structs have a \<^verbatim>\<open>Name\<close>, a \<^verbatim>\<open>Value\<close> or a \<^verbatim>\<open>MetaData\<close>.
  \<^item> The fields \<^verbatim>\<open>XMLName\<close>, \<^verbatim>\<open>DateStamp\<close> and \<^verbatim>\<open>LastImport\<close> are never read by the
    validation and are left out, as is the line \<^verbatim>\<open>validateIP\<close> prints on standard output.
\<close>

type_synonym error = string

subsection \<open>What the validation takes from outside\<close>

text \<open>
  \<^verbatim>\<open>AllowFqdnOnRequisitionedInterfaces\<close> is the package variable. \<^verbatim>\<open>net.ParseIP\<close> and
  \<^verbatim>\<open>net.LookupIP\<close> belong to the Go library: \<open>ParseIP s\<close> holds when \<^verbatim>\<open>net.ParseIP(s)\<close> is
  not nil, and \<open>LookupIP s\<close> is the pair returned by \<^verbatim>\<open>net.LookupIP(s)\<close>, the addresses
  already rendered by \<^verbatim>\<open>String()\<close>. Go leaves the order of a \<^verbatim>\<open>range\<close> over a map open;
  \<open>rangeOrder\<close> is the order in which the entries of a map are visited.
\<close>

type_synonym counts = "(string \<times> nat) list"

record env =
  AllowFqdnOnRequisitionedInterfaces :: bool
  ParseIP :: "string \<Rightarrow> bool"
  LookupIP :: "string \<Rightarrow> string list \<times> error option"
  rangeOrder :: "counts \<Rightarrow> counts"

text \<open>\<open>rangeOrder\<close> visits exactly the entries of the map.\<close>

definition rangeVisitsAll :: "env \<Rightarrow> bool" where
  "rangeVisitsAll e = (\<forall>m. set (rangeOrder e m) = set m)"

subsection \<open>Formatting\<close>

fun decimal :: "nat \<Rightarrow> string" where
  "decimal n =
     (if n < 10 then [char_of (48 + n)]
      else decimal (n div 10) @ [char_of (48 + n mod 10)])"

declare decimal.simps [simp del]

text \<open>The verb \<^verbatim>\<open>%d\<close> on an \<^verbatim>\<open>int\<close>.\<close>

definition fmt_d :: "int \<Rightarrow> string" where
  "fmt_d i = (if i < 0 then CHR ''-'' # decimal (nat (- i)) else decimal (nat i))"

text \<open>The verb \<^verbatim>\<open>%s\<close> on an \<^verbatim>\<open>error\<close>, which may be nil.\<close>

definition fmt_err :: "error option \<Rightarrow> string" where
  "fmt_err e = (case e of None \<Rightarrow> ''%!s(<nil>)'' | Some msg \<Rightarrow> msg)"

subsection \<open>Forbidden characters\<close>

text \<open>The characters of the class \<^verbatim>\<open>[/\\?:&*'"]\<close>: slash, backslash, question mark, colon,
  ampersand, star, apostrophe and double quote.\<close>

definition forbiddenChars :: "char list" where
  "forbiddenChars =
     [CHR ''/'', CHR 0x5C, CHR ''?'', CHR '':'', CHR ''&'', CHR ''*'', CHR 0x27, CHR 0x22]"

text \<open>\<^verbatim>\<open>regexp.MatchString\<close> of that class: some byte of the string is in it.\<close>

definition matchForbidden :: "string \<Rightarrow> bool" where
  "matchForbidden s = list_ex (\<lambda>c. c \<in> set forbiddenChars) s"

text \<open>The tail every "Invalid characters" message shares, from the colon on.\<close>

definition forbiddenTail :: string where
  "forbiddenTail =
     '':, /, '' @ [CHR 0x5C] @ '', ?, &, *, '' @ [CHR 0x27] @ '', '' @ [CHR 0x22]"

subsection \<open>Maps from strings to counters\<close>

text \<open>A \<^verbatim>\<open>map[string]int\<close> that is only incremented: an association list with one entry
  per key. \<open>incr k m\<close> is \<^verbatim>\<open>m[k]++\<close>.\<close>

fun incr :: "string \<Rightarrow> counts \<Rightarrow> counts" where
  "incr k [] = [(k, 1)]"
| "incr k ((k', c) # m) = (if k = k' then (k', c + 1) # m else (k', c) # incr k m)"

text \<open>\<^verbatim>\<open>for k, count := range m { if count > 1 { return k } }\<close>\<close>

definition firstRepeated :: "env \<Rightarrow> counts \<Rightarrow> string option" where
  "firstRepeated e m =
     (case find (\<lambda>(k, c). c > 1) (rangeOrder e m) of
        None \<Rightarrow> None
      | Some (k, c) \<Rightarrow> Some k)"

subsection \<open>Meta-data\<close>

record RequisitionMetaData =
  md_Key :: string
  md_Value :: string
  md_Context :: string

definition RequisitionMetaData_IsValid :: "RequisitionMetaData \<Rightarrow> error option \<times> RequisitionMetaData" where
  "RequisitionMetaData_IsValid m =
     (let m1 = (if md_Context m = [] then m\<lparr>md_Context := ''requisition''\<rparr> else m) in
      if md_Key m1 = [] then (Some ''Meta-data key cannot be empty'', m1)
      else if md_Value m1 = [] then
        (Some (''Meta-data value for key '' @ md_Key m1 @ '' cannot be empty''), m1)
      else (None, m1))"

text \<open>\<^verbatim>\<open>for i := range xs { m := &xs[i]; if err := m.IsValid(); err != nil { return err } }\<close>:
  the entries visited are updated, the others are untouched.\<close>

fun validateMetaDataRefs :: "RequisitionMetaData list \<Rightarrow> error option \<times> RequisitionMetaData list" where
  "validateMetaDataRefs [] = (None, [])"
| "validateMetaDataRefs (m # ms) =
     (case RequisitionMetaData_IsValid m of
        (Some e, m') \<Rightarrow> (Some e, m' # ms)
      | (None, m') \<Rightarrow>
          (case validateMetaDataRefs ms of (r, ms') \<Rightarrow> (r, m' # ms')))"

text \<open>\<^verbatim>\<open>for i := range xs { m := xs[i]; if err := m.IsValid(); err != nil { return err } }\<close>:
  each entry is copied before it is validated, so the slice is not updated.\<close>

fun validateMetaDataCopies :: "RequisitionMetaData list \<Rightarrow> error option" where
  "validateMetaDataCopies [] = None"
| "validateMetaDataCopies (m # ms) =
     (case RequisitionMetaData_IsValid m of
        (Some e, m') \<Rightarrow> Some e
      | (None, m') \<Rightarrow> validateMetaDataCopies ms)"

subsection \<open>Monitored services, assets, categories\<close>

record RequisitionMonitoredService =
  svc_Name :: string
  svc_MetaData :: "RequisitionMetaData list"

definition RequisitionMonitoredService_IsValid ::
  "RequisitionMonitoredService \<Rightarrow> error option \<times> RequisitionMonitoredService" where
  "RequisitionMonitoredService_IsValid s =
     (if svc_Name s = [] then (Some ''Service name cannot be empty'', s)
      else if matchForbidden (svc_Name s) then
        (Some (''Invalid characters on service name '' @ svc_Name s @ forbiddenTail), s)
      else (case validateMetaDataRefs (svc_MetaData s) of
              (r, ms) \<Rightarrow> (r, s\<lparr>svc_MetaData := ms\<rparr>)))"

record RequisitionAsset =
  asset_Name :: string
  asset_Value :: string

definition RequisitionAsset_IsValid :: "RequisitionAsset \<Rightarrow> error option" where
  "RequisitionAsset_IsValid a =
     (if asset_Name a = [] then Some ''Asset name cannot be empty''
      else if matchForbidden (asset_Name a) then
        Some (''Invalid characters on asset name '' @ asset_Name a @ forbiddenTail)
      else if asset_Value a = [] then
        Some (''Asset value for '' @ asset_Name a @ '' cannot be empty'')
      else None)"

record RequisitionCategory =
  cat_Name :: string

definition RequisitionCategory_IsValid :: "RequisitionCategory \<Rightarrow> error option" where
  "RequisitionCategory_IsValid c =
     (if cat_Name c = [] then Some ''Category name cannot be empty''
      else if matchForbidden (cat_Name c) then
        Some (''Invalid characters on category name '' @ cat_Name c @ forbiddenTail)
      else None)"

text \<open>The first error of a value-receiver \<^verbatim>\<open>IsValid\<close> over a slice.\<close>

fun firstError :: "('a \<Rightarrow> error option) \<Rightarrow> 'a list \<Rightarrow> error option" where
  "firstError f [] = None"
| "firstError f (x # xs) = (case f x of Some e \<Rightarrow> Some e | None \<Rightarrow> firstError f xs)"

subsection \<open>Interfaces\<close>

record RequisitionInterface =
  intf_IPAddress :: string
  intf_Description :: string
  intf_SnmpPrimary :: string
  intf_Status :: int
  intf_Services :: "RequisitionMonitoredService list"
  intf_MetaData :: "RequisitionMetaData list"

definition validateIP :: "env \<Rightarrow> RequisitionInterface \<Rightarrow> error option \<times> RequisitionInterface" where
  "validateIP e intf =
     (if ParseIP e (intf_IPAddress intf) then (None, intf)
      else if AllowFqdnOnRequisitionedInterfaces e then
        (case LookupIP e (intf_IPAddress intf) of
           (addresses, err) \<Rightarrow>
             if err \<noteq> None \<or> length addresses = 0 then
               (Some (''Cannot get address from '' @ intf_IPAddress intf
                       @ '' (invalid IP or FQDN); '' @ fmt_err err), intf)
             else (None, intf\<lparr>intf_IPAddress := hd addresses\<rparr>))
      else (Some (intf_IPAddress intf @ '' is not a valid IPv4 or IPv6 address''), intf))"

text \<open>The first loop of \<^verbatim>\<open>validateServices\<close>, with the map it fills.\<close>

fun servicesLoop ::
  "RequisitionMonitoredService list \<Rightarrow> counts
     \<Rightarrow> error option \<times> RequisitionMonitoredService list \<times> counts" where
  "servicesLoop [] m = (None, [], m)"
| "servicesLoop (s # ss) m =
     (case RequisitionMonitoredService_IsValid s of
        (Some e, s') \<Rightarrow> (Some e, s' # ss, m)
      | (None, s') \<Rightarrow>
          (case servicesLoop ss (incr (svc_Name s') m) of
             (r, ss', m') \<Rightarrow> (r, s' # ss', m')))"

definition validateServices ::
  "env \<Rightarrow> RequisitionInterface \<Rightarrow> error option \<times> RequisitionInterface" where
  "validateServices e intf =
     (case servicesLoop (intf_Services intf) [] of
        (Some err, ss, serviceMap) \<Rightarrow> (Some err, intf\<lparr>intf_Services := ss\<rparr>)
      | (None, ss, serviceMap) \<Rightarrow>
          (case firstRepeated e serviceMap of
             Some service \<Rightarrow>
               (Some (''Service '' @ service @ '' is defined more than once on interface ''
                       @ intf_IPAddress intf), intf\<lparr>intf_Services := ss\<rparr>)
           | None \<Rightarrow> (None, intf\<lparr>intf_Services := ss\<rparr>)))"

definition RequisitionInterface_IsValid ::
  "env \<Rightarrow> RequisitionInterface \<Rightarrow> error option \<times> RequisitionInterface" where
  "RequisitionInterface_IsValid e intf =
     (if intf_IPAddress intf = [] then (Some ''IP Address cannot be empty'', intf)
      else
        let i1 = (if intf_Status intf = 0 then intf\<lparr>intf_Status := 1\<rparr> else intf) in
        if intf_Status i1 \<noteq> 1 \<and> intf_Status i1 \<noteq> 3 then
          (Some (''Invalid status for interface '' @ intf_IPAddress i1 @ '': ''
                  @ fmt_d (intf_Status i1)), i1)
        else
          let i2 = (if intf_SnmpPrimary i1 = [] then i1\<lparr>intf_SnmpPrimary := ''N''\<rparr> else i1) in
          if intf_SnmpPrimary i2 \<noteq> ''P'' \<and> intf_SnmpPrimary i2 \<noteq> ''S''
             \<and> intf_SnmpPrimary i2 \<noteq> ''N'' then
            (Some (''Invalid snmp-primary for interface '' @ intf_IPAddress i2 @ '': ''
                    @ intf_SnmpPrimary i2), i2)
          else
            (case validateIP e i2 of
               (Some err, i3) \<Rightarrow> (Some err, i3)
             | (None, i3) \<Rightarrow>
                 (case validateServices e i3 of
                    (Some err, i4) \<Rightarrow> (Some err, i4)
                  | (None, i4) \<Rightarrow> (validateMetaDataCopies (intf_MetaData i4), i4))))"

subsection \<open>Nodes\<close>

record RequisitionNode =
  node_NodeLabel :: string
  node_ForeignID :: string
  node_Location :: string
  node_City :: string
  node_Building :: string
  node_ParentForeignSource :: string
  node_ParentForeignID :: string
  node_ParentNodeLabel :: string
  node_Interfaces :: "RequisitionInterface list"
  node_Categories :: "RequisitionCategory list"
  node_Assets :: "RequisitionAsset list"
  node_MetaData :: "RequisitionMetaData list"

text \<open>The loop of \<^verbatim>\<open>validateInterfaces\<close>, with its counter and its map: both are
  updated from the interface as it is before its own \<^verbatim>\<open>IsValid\<close> runs.\<close>

fun interfacesLoop ::
  "env \<Rightarrow> RequisitionInterface list \<Rightarrow> nat \<Rightarrow> counts
     \<Rightarrow> error option \<times> RequisitionInterface list \<times> nat \<times> counts" where
  "interfacesLoop e [] primaryCount intfMap = (None, [], primaryCount, intfMap)"
| "interfacesLoop e (intf # rest) primaryCount intfMap =
     (let intfMap1 = incr (intf_IPAddress intf) intfMap;
          primaryCount1 = (if intf_SnmpPrimary intf = ''P'' then primaryCount + 1
                           else primaryCount) in
      case RequisitionInterface_IsValid e intf of
        (Some err, intf') \<Rightarrow> (Some err, intf' # rest, primaryCount1, intfMap1)
      | (None, intf') \<Rightarrow>
          (case interfacesLoop e rest primaryCount1 intfMap1 of
             (r, rest', pc, im) \<Rightarrow> (r, intf' # rest', pc, im)))"

definition validateInterfaces :: "env \<Rightarrow> RequisitionNode \<Rightarrow> error option \<times> RequisitionNode" where
  "validateInterfaces e n =
     (case interfacesLoop e (node_Interfaces n) 0 [] of
        (Some err, intfs, primaryCount, intfMap) \<Rightarrow> (Some err, n\<lparr>node_Interfaces := intfs\<rparr>)
      | (None, intfs, primaryCount, intfMap) \<Rightarrow>
          if primaryCount > 1 then
            (Some (''Node '' @ node_NodeLabel n @ '' cannot have more than one primary interface''),
             n\<lparr>node_Interfaces := intfs\<rparr>)
          else
            (case firstRepeated e intfMap of
               Some ipAddr \<Rightarrow>
                 (Some (''IP Address '' @ ipAddr @ '' is defined more than once on node ''
                         @ node_NodeLabel n), n\<lparr>node_Interfaces := intfs\<rparr>)
             | None \<Rightarrow> (None, n\<lparr>node_Interfaces := intfs\<rparr>)))"

definition RequisitionNode_IsValid :: "env \<Rightarrow> RequisitionNode \<Rightarrow> error option \<times> RequisitionNode" where
  "RequisitionNode_IsValid e n =
     (if node_ForeignID n = [] then (Some ''Foreign ID cannot be empty'', n)
      else if matchForbidden (node_ForeignID n) then
        (Some (''Invalid characters on Foreign ID '' @ node_ForeignID n @ forbiddenTail), n)
      else
        let n1 = (if node_NodeLabel n = [] then n\<lparr>node_NodeLabel := node_ForeignID n\<rparr> else n) in
        if node_ParentForeignID n1 \<noteq> [] \<and> node_ParentNodeLabel n1 \<noteq> [] then
          (Some (''Cannot set both parent foreign ID and parent node label on node ''
                  @ node_NodeLabel n1 @ '', choose one''), n1)
        else if node_ParentNodeLabel n1 = node_NodeLabel n1 then
          (Some (''The parent node cannot be the node itself. ''
                  @ ''The parent-nodel-label has to be different than the node-label''), n1)
        else if node_ParentForeignID n1 = node_ForeignID n1 then
          (Some (''The parent node cannot be the node itself. ''
                  @ ''The parent-foreign-id has to be different than the foreign-id''), n1)
        else
          (case validateInterfaces e n1 of
             (Some err, n2) \<Rightarrow> (Some err, n2)
           | (None, n2) \<Rightarrow>
               (case firstError RequisitionCategory_IsValid (node_Categories n2) of
                  Some err \<Rightarrow> (Some err, n2)
                | None \<Rightarrow>
                    (case firstError RequisitionAsset_IsValid (node_Assets n2) of
                       Some err \<Rightarrow> (Some err, n2)
                     | None \<Rightarrow>
                         (case validateMetaDataRefs (node_MetaData n2) of
                            (r, ms) \<Rightarrow> (r, n2\<lparr>node_MetaData := ms\<rparr>))))))"

subsection \<open>Requisitions\<close>

record Requisition =
  req_Name :: string
  req_Nodes :: "RequisitionNode list"

text \<open>The loop of \<^verbatim>\<open>Requisition.IsValid\<close>; the label in the wrapped message is read from
  the node after its validation.\<close>

fun nodesLoop ::
  "env \<Rightarrow> string \<Rightarrow> RequisitionNode list \<Rightarrow> counts
     \<Rightarrow> error option \<times> RequisitionNode list \<times> counts" where
  "nodesLoop e name [] foreignIDs = (None, [], foreignIDs)"
| "nodesLoop e name (n # rest) foreignIDs =
     (let foreignIDs1 = incr (node_ForeignID n) foreignIDs in
      case RequisitionNode_IsValid e n of
        (Some err, n') \<Rightarrow>
          (Some (''Problem on node '' @ node_NodeLabel n' @ '' on requisition '' @ name
                  @ '': '' @ err), n' # rest, foreignIDs1)
      | (None, n') \<Rightarrow>
          (case nodesLoop e name rest foreignIDs1 of
             (r, rest', ids) \<Rightarrow> (r, n' # rest', ids)))"

definition Requisition_IsValid :: "env \<Rightarrow> Requisition \<Rightarrow> error option \<times> Requisition" where
  "Requisition_IsValid e r =
     (if req_Name r = [] then (Some ''Requisition name cannot be empty'', r)
      else if matchForbidden (req_Name r) then
        (Some (''Invalid characters on requisition name '' @ req_Name r @ forbiddenTail), r)
      else
        (case nodesLoop e (req_Name r) (req_Nodes r) [] of
           (Some err, ns, foreignIDs) \<Rightarrow> (Some err, r\<lparr>req_Nodes := ns\<rparr>)
         | (None, ns, foreignIDs) \<Rightarrow>
             (case firstRepeated e foreignIDs of
                Some fid \<Rightarrow>
                  (Some (''Duplicate Foreign ID '' @ fid @ '' on requisition '' @ req_Name r),
                   r\<lparr>req_Nodes := ns\<rparr>)
              | None \<Rightarrow> (None, r\<lparr>req_Nodes := ns\<rparr>))))"

subsection \<open>Notions used to state the properties\<close>

text \<open>The value a counter map holds for a key, 0 when the key is absent.\<close>

definition cnt :: "counts \<Rightarrow> string \<Rightarrow> nat" where
  "cnt m k = (case map_of m k of None \<Rightarrow> 0 | Some c \<Rightarrow> c)"

text \<open>The map after \<^verbatim>\<open>m[k]++\<close> for each key of a list in turn.\<close>

fun tally :: "string list \<Rightarrow> counts \<Rightarrow> counts" where
  "tally [] m = m"
| "tally (k # ks) m = tally ks (incr k m)"

text \<open>The number of interfaces flagged primary.\<close>

definition primaries :: "RequisitionInterface list \<Rightarrow> nat" where
  "primaries intfs = length (filter (\<lambda>i. intf_SnmpPrimary i = ''P'') intfs)"

text \<open>An interface with the defaults of \<^verbatim>\<open>IsValid\<close> filled in: status and primary flag.\<close>

definition normalized :: "RequisitionInterface \<Rightarrow> RequisitionInterface" where
  "normalized i =
     i\<lparr>intf_Status := (if intf_Status i = 0 then 1 else intf_Status i),
       intf_SnmpPrimary := (if intf_SnmpPrimary i = [] then ''N'' else intf_SnmpPrimary i)\<rparr>"

text \<open>The label of a node once \<^verbatim>\<open>IsValid\<close> has defaulted it.\<close>

definition effectiveLabel :: "RequisitionNode \<Rightarrow> string" where
  "effectiveLabel n = (if node_NodeLabel n = [] then node_ForeignID n else node_NodeLabel n)"

text \<open>The checks of \<^verbatim>\<open>RequisitionNode.IsValid\<close> that come before its interfaces: the
  foreign ID, the two parent references.\<close>

definition nodeFieldsPass :: "RequisitionNode \<Rightarrow> bool" where
  "nodeFieldsPass n \<longleftrightarrow>
     node_ForeignID n \<noteq> [] \<and> set (node_ForeignID n) \<inter> set forbiddenChars = {}
     \<and> \<not> (node_ParentForeignID n \<noteq> [] \<and> node_ParentNodeLabel n \<noteq> [])
     \<and> node_ParentNodeLabel n \<noteq> effectiveLabel n
     \<and> node_ParentForeignID n \<noteq> node_ForeignID n"

text \<open>The forms the message of a failed \<^verbatim>\<open>RequisitionInterface.IsValid\<close> can take.\<close>

definition interfaceErrorShape :: "error \<Rightarrow> bool" where
  "interfaceErrorShape err \<longleftrightarrow>
     (\<exists>r. err = ''IP Address cannot be empty'' @ r)
     \<or> (\<exists>r. err = ''Invalid status for interface '' @ r)
     \<or> (\<exists>r. err = ''Invalid snmp-primary for interface '' @ r)
     \<or> (\<exists>r. err = ''Cannot get address from '' @ r)
     \<or> (\<exists>ip. err = ip @ '' is not a valid IPv4 or IPv6 address'')
     \<or> (\<exists>r. err = ''Service '' @ r)
     \<or> (\<exists>r. err = ''Invalid characters on service name '' @ r)
     \<or> (\<exists>r. err = ''Meta-data '' @ r)"

subsection \<open>Sample inputs\<close>

text \<open>An environment in which 10.0.0.1 and 10.0.0.2 are the literal addresses, the hosts
  \<open>hostA\<close> and \<open>hostB\<close> both resolve to 10.0.0.1, nothing else resolves, and maps are
  visited in insertion order; and the same environment with resolution switched off.\<close>

definition sampleEnv :: env where
  "sampleEnv =
     \<lparr>AllowFqdnOnRequisitionedInterfaces = True,
      ParseIP = (\<lambda>s. s = ''10.0.0.1'' \<or> s = ''10.0.0.2''),
      LookupIP = (\<lambda>s. if s = ''hostA'' \<or> s = ''hostB'' then ([''10.0.0.1''], None)
                       else ([], Some (''lookup '' @ s @ '': no such host''))),
      rangeOrder = (\<lambda>m. m)\<rparr>"

definition sampleEnvNoFqdn :: env where
  "sampleEnvNoFqdn = sampleEnv\<lparr>AllowFqdnOnRequisitionedInterfaces := False\<rparr>"

definition mkInterface :: "string \<Rightarrow> string \<Rightarrow> int \<Rightarrow> RequisitionInterface" where
  "mkInterface ip primary status =
     \<lparr>intf_IPAddress = ip, intf_Description = [], intf_SnmpPrimary = primary,
      intf_Status = status, intf_Services = [], intf_MetaData = []\<rparr>"

definition mkNode :: "string \<Rightarrow> RequisitionInterface list \<Rightarrow> RequisitionNode" where
  "mkNode fid intfs =
     \<lparr>node_NodeLabel = [], node_ForeignID = fid, node_Location = [], node_City = [],
      node_Building = [], node_ParentForeignSource = [], node_ParentForeignID = [],
      node_ParentNodeLabel = [], node_Interfaces = intfs, node_Categories = [],
      node_Assets = [], node_MetaData = []\<rparr>"

definition nodeWithParents :: "string \<Rightarrow> string \<Rightarrow> string \<Rightarrow> string \<Rightarrow> RequisitionNode" where
  "nodeWithParents fid label parentFid parentLabel =
     (mkNode fid [])\<lparr>node_NodeLabel := label, node_ParentForeignID := parentFid,
                      node_ParentNodeLabel := parentLabel\<rparr>"

definition ownerEntry :: RequisitionMetaData where
  "ownerEntry = \<lparr>md_Key = ''owner'', md_Value = ''ops'', md_Context = []\<rparr>"

section \<open>Properties\<close>

subsection \<open>Counter maps\<close>

lemma incr_keys: "set (map fst (incr k m)) = insert k (set (map fst m))"
proof (induction m)
  case Nil
  then show ?case by simp
next
  case (Cons p m)
  obtain k' c where p: "p = (k', c)" by (cases p)
  show ?case using Cons by (cases "k = k'") (auto simp: p)
qed

lemma incr_distinct: "distinct (map fst m) \<Longrightarrow> distinct (map fst (incr k m))"
proof (induction m)
  case Nil
  then show ?case by simp
next
  case (Cons p m)
  obtain k' c where p: "p = (k', c)" by (cases p)
  from Cons have "k' \<notin> set (map fst m)" and "distinct (map fst m)"
    and "distinct (map fst (incr k m))"
    by (auto simp: p)
  then show ?case
    using incr_keys [of k m] by (cases "k = k'") (simp_all add: p)
qed

lemma cnt_incr: "cnt (incr k m) k' = cnt m k' + (if k = k' then 1 else 0)"
  by (induction m) (auto simp: cnt_def)

lemma cnt_entry: "distinct (map fst m) \<Longrightarrow> (k, c) \<in> set m \<Longrightarrow> cnt m k = c"
  by (simp add: cnt_def)

lemma cnt_pos_entry: "0 < cnt m k \<Longrightarrow> (k, cnt m k) \<in> set m"
  by (auto simp: cnt_def split: option.splits dest: map_of_SomeD)

lemma firstRepeated_None:
  assumes "rangeVisitsAll e" "distinct (map fst m)"
  shows "firstRepeated e m = None \<longleftrightarrow> (\<forall>k. cnt m k \<le> 1)"
proof
  assume n: "firstRepeated e m = None"
  show "\<forall>k. cnt m k \<le> 1"
  proof (rule allI, rule ccontr)
    fix k assume "\<not> cnt m k \<le> 1"
    then have "1 < cnt m k" by simp
    then have "(k, cnt m k) \<in> set m" using cnt_pos_entry [of m k] by simp
    then have "(k, cnt m k) \<in> set (rangeOrder e m)"
      using assms(1) by (simp add: rangeVisitsAll_def)
    with \<open>1 < cnt m k\<close> have "find (\<lambda>(k, c). c > 1) (rangeOrder e m) \<noteq> None"
      by (auto simp: find_None_iff)
    with n show False by (auto simp: firstRepeated_def split: option.splits)
  qed
next
  assume a: "\<forall>k. cnt m k \<le> 1"
  have "find (\<lambda>(k, c). c > 1) (rangeOrder e m) = None"
  proof (rule ccontr)
    assume "find (\<lambda>(k, c). c > 1) (rangeOrder e m) \<noteq> None"
    then obtain k c where "(k, c) \<in> set (rangeOrder e m)" "1 < c"
      by (auto simp: find_None_iff)
    then have "(k, c) \<in> set m" using assms(1) by (simp add: rangeVisitsAll_def)
    then have "cnt m k = c" using assms(2) by (rule cnt_entry [rotated])
    with a \<open>1 < c\<close> show False by (metis not_less)
  qed
  then show "firstRepeated e m = None" by (simp add: firstRepeated_def)
qed

lemma firstRepeated_Some:
  assumes "rangeVisitsAll e" "distinct (map fst m)" "firstRepeated e m = Some k"
  shows "1 < cnt m k"
proof -
  from assms(3) obtain c where "find (\<lambda>(k, c). c > 1) (rangeOrder e m) = Some (k, c)"
    by (auto simp: firstRepeated_def split: option.splits)
  then have "(k, c) \<in> set (rangeOrder e m)" "1 < c"
    by (auto simp: find_Some_iff in_set_conv_nth)
  then have "(k, c) \<in> set m" using assms(1) by (simp add: rangeVisitsAll_def)
  then have "cnt m k = c" using assms(2) by (rule cnt_entry [rotated])
  with \<open>1 < c\<close> show ?thesis by simp
qed

lemma distinct_count_list: "distinct xs \<longleftrightarrow> (\<forall>x. count_list xs x \<le> 1)"
proof (induction xs)
  case Nil
  then show ?case by simp
next
  case (Cons a xs)
  show ?case
  proof
    assume d: "distinct (a # xs)"
    then have "count_list xs a = 0" by (simp add: count_list_0_iff)
    with d Cons show "\<forall>x. count_list (a # xs) x \<le> 1" by auto
  next
    assume c: "\<forall>x. count_list (a # xs) x \<le> 1"
    then have "count_list xs a = 0" by (metis add_le_same_cancel2 count_list.simps(2) le_zero_eq)
    moreover have "\<forall>x. count_list xs x \<le> 1"
    proof
      fix x show "count_list xs x \<le> 1" using c [rule_format, of x] by (auto split: if_splits)
    qed
    ultimately show "distinct (a # xs)" using Cons by (simp add: count_list_0_iff)
  qed
qed

lemma tally_distinct: "distinct (map fst m) \<Longrightarrow> distinct (map fst (tally ks m))"
  by (induction ks arbitrary: m) (simp_all add: incr_distinct)

lemma cnt_tally: "cnt (tally ks m) k = cnt m k + count_list ks k"
  by (induction ks arbitrary: m) (simp_all add: cnt_incr)

lemma cnt_tally_empty: "cnt (tally ks []) k = count_list ks k"
proof -
  have "cnt [] k = 0" by (simp add: cnt_def)
  then show ?thesis by (simp add: cnt_tally)
qed

lemma firstRepeated_tally_None:
  "rangeVisitsAll e \<Longrightarrow> firstRepeated e (tally ks []) = None \<longleftrightarrow> distinct ks"
proof -
  assume v: "rangeVisitsAll e"
  have "distinct (map fst (tally ks []))" by (simp add: tally_distinct)
  with v have "firstRepeated e (tally ks []) = None \<longleftrightarrow> (\<forall>k. cnt (tally ks []) k \<le> 1)"
    by (rule firstRepeated_None)
  then show ?thesis by (simp only: cnt_tally_empty distinct_count_list)
qed

lemma firstRepeated_tally_Some:
  "rangeVisitsAll e \<Longrightarrow> firstRepeated e (tally ks []) = Some k \<Longrightarrow> 1 < count_list ks k"
  using firstRepeated_Some [of e "tally ks []" k]
  by (simp add: tally_distinct cnt_tally_empty)

subsection \<open>The loops when every element passes, and at the first failure\<close>

lemma interfacesLoop_all_pass:
  "\<forall>i \<in> set intfs. fst (RequisitionInterface_IsValid e i) = None \<Longrightarrow>
     interfacesLoop e intfs pc m =
       (None, map (\<lambda>i. snd (RequisitionInterface_IsValid e i)) intfs,
        pc + primaries intfs, tally (map intf_IPAddress intfs) m)"
proof (induction intfs arbitrary: pc m)
  case Nil
  then show ?case by (simp add: primaries_def)
next
  case (Cons i intfs)
  obtain i' where i: "RequisitionInterface_IsValid e i = (None, i')"
    using Cons.prems by (cases "RequisitionInterface_IsValid e i") auto
  show ?case using Cons by (simp add: i primaries_def Let_def)
qed

lemma interfacesLoop_first_failure:
  "\<forall>i \<in> set pre. fst (RequisitionInterface_IsValid e i) = None \<Longrightarrow>
   fst (RequisitionInterface_IsValid e x) = Some err \<Longrightarrow>
     fst (interfacesLoop e (pre @ x # post) pc m) = Some err
     \<and> fst (snd (interfacesLoop e (pre @ x # post) pc m)) =
         map (\<lambda>i. snd (RequisitionInterface_IsValid e i)) pre @ snd (RequisitionInterface_IsValid e x) # post"
proof (induction pre arbitrary: pc m)
  case Nil
  obtain x' where x: "RequisitionInterface_IsValid e x = (Some err, x')"
    using Nil.prems by (cases "RequisitionInterface_IsValid e x") auto
  show ?case by (simp add: x Let_def)
next
  case (Cons i pre)
  obtain i' where i: "RequisitionInterface_IsValid e i = (None, i')"
    using Cons.prems by (cases "RequisitionInterface_IsValid e i") auto
  let ?m = "incr (intf_IPAddress i) m"
  let ?pc = "if intf_SnmpPrimary i = ''P'' then pc + 1 else pc"
  obtain r rest pc' m' where l: "interfacesLoop e (pre @ x # post) ?pc ?m = (r, rest, pc', m')"
    by (cases "interfacesLoop e (pre @ x # post) ?pc ?m") auto
  from Cons.IH [of ?pc ?m] Cons.prems l
  have "r = Some err" and "rest = map (\<lambda>i. snd (RequisitionInterface_IsValid e i)) pre
                                   @ snd (RequisitionInterface_IsValid e x) # post"
    by simp_all
  with l show ?case by (simp add: i Let_def)
qed

lemma nodesLoop_all_pass:
  "\<forall>n \<in> set ns. fst (RequisitionNode_IsValid e n) = None \<Longrightarrow>
     nodesLoop e name ns m =
       (None, map (\<lambda>n. snd (RequisitionNode_IsValid e n)) ns, tally (map node_ForeignID ns) m)"
proof (induction ns arbitrary: m)
  case Nil
  then show ?case by simp
next
  case (Cons n ns)
  obtain n' where n: "RequisitionNode_IsValid e n = (None, n')"
    using Cons.prems by (cases "RequisitionNode_IsValid e n") auto
  show ?case using Cons by (simp add: n Let_def)
qed

lemma nodesLoop_first_failure:
  "\<forall>n \<in> set pre. fst (RequisitionNode_IsValid e n) = None \<Longrightarrow>
   fst (RequisitionNode_IsValid e x) = Some err \<Longrightarrow>
     fst (nodesLoop e name (pre @ x # post) m) =
       Some (''Problem on node '' @ node_NodeLabel (snd (RequisitionNode_IsValid e x))
              @ '' on requisition '' @ name @ '': '' @ err)
     \<and> fst (snd (nodesLoop e name (pre @ x # post) m)) =
         map (\<lambda>n. snd (RequisitionNode_IsValid e n)) pre @ snd (RequisitionNode_IsValid e x) # post"
proof (induction pre arbitrary: m)
  case Nil
  obtain x' where x: "RequisitionNode_IsValid e x = (Some err, x')"
    using Nil.prems by (cases "RequisitionNode_IsValid e x") auto
  show ?case by (simp add: x Let_def)
next
  case (Cons n pre)
  obtain n' where n: "RequisitionNode_IsValid e n = (None, n')"
    using Cons.prems by (cases "RequisitionNode_IsValid e n") auto
  let ?m = "incr (node_ForeignID n) m"
  obtain r rest m' where l: "nodesLoop e name (pre @ x # post) ?m = (r, rest, m')"
    by (cases "nodesLoop e name (pre @ x # post) ?m") auto
  from Cons.IH [of ?m] Cons.prems l
  have "r = Some (''Problem on node '' @ node_NodeLabel (snd (RequisitionNode_IsValid e x))
              @ '' on requisition '' @ name @ '': '' @ err)"
    and "rest = map (\<lambda>n. snd (RequisitionNode_IsValid e n)) pre @ snd (RequisitionNode_IsValid e x) # post"
    by simp_all
  with l show ?case by (simp add: n Let_def)
qed

subsection \<open>Formatting and record normal forms\<close>

lemma fmt_d_samples: "fmt_d 2 = ''2''" "fmt_d 7 = ''7''"
  by code_simp+

lemma status_default:
  "(if intf_Status i = 0 then i\<lparr>intf_Status := 1\<rparr> else i)
     = i\<lparr>intf_Status := (if intf_Status i = 0 then 1 else intf_Status i)\<rparr>"
  by (cases i) simp

lemma snmpPrimary_default:
  "(if intf_SnmpPrimary i = [] then i\<lparr>intf_SnmpPrimary := ''N''\<rparr> else i)
     = i\<lparr>intf_SnmpPrimary := (if intf_SnmpPrimary i = [] then ''N'' else intf_SnmpPrimary i)\<rparr>"
  by (cases i) simp

subsection \<open>Interfaces: the four ways through the field checks\<close>

lemma RequisitionInterface_IsValid_cases:
  "(intf_IPAddress i = [] \<longrightarrow>
      RequisitionInterface_IsValid e i = (Some ''IP Address cannot be empty'', i))
   \<and> (intf_IPAddress i \<noteq> [] \<and> intf_Status i \<notin> {0, 1, 3} \<longrightarrow>
      RequisitionInterface_IsValid e i =
        (Some (''Invalid status for interface '' @ intf_IPAddress i @ '': ''
                @ fmt_d (intf_Status i)), i))
   \<and> (intf_IPAddress i \<noteq> [] \<and> intf_Status i \<in> {0, 1, 3}
        \<and> intf_SnmpPrimary i \<notin> {[], ''P'', ''S'', ''N''} \<longrightarrow>
      RequisitionInterface_IsValid e i =
        (Some (''Invalid snmp-primary for interface '' @ intf_IPAddress i @ '': ''
                @ intf_SnmpPrimary i),
         i\<lparr>intf_Status := (if intf_Status i = 0 then 1 else intf_Status i)\<rparr>))
   \<and> (intf_IPAddress i \<noteq> [] \<and> intf_Status i \<in> {0, 1, 3}
        \<and> intf_SnmpPrimary i \<in> {[], ''P'', ''S'', ''N''} \<longrightarrow>
      RequisitionInterface_IsValid e i =
        (case validateIP e
                (i\<lparr>intf_Status := (if intf_Status i = 0 then 1 else intf_Status i),
                   intf_SnmpPrimary :=
                     (if intf_SnmpPrimary i = [] then ''N'' else intf_SnmpPrimary i)\<rparr>) of
           (Some err, i3) \<Rightarrow> (Some err, i3)
         | (None, i3) \<Rightarrow>
             (case validateServices e i3 of
                (Some err, i4) \<Rightarrow> (Some err, i4)
              | (None, i4) \<Rightarrow> (validateMetaDataCopies (intf_MetaData i4), i4))))"
  unfolding RequisitionInterface_IsValid_def Let_def status_default snmpPrimary_default
  by auto

subsection \<open>The forms of the error messages\<close>

lemma RequisitionMetaData_error_shape:
  "fst (RequisitionMetaData_IsValid m) = Some err \<Longrightarrow> \<exists>r. err = ''Meta-data '' @ r"
  by (auto simp: RequisitionMetaData_IsValid_def Let_def split: if_splits)

lemma validateMetaDataRefs_error_shape:
  "fst (validateMetaDataRefs ms) = Some err \<Longrightarrow> \<exists>r. err = ''Meta-data '' @ r"
proof (induction ms)
  case Nil
  then show ?case by simp
next
  case (Cons m ms)
  obtain r m' where m: "RequisitionMetaData_IsValid m = (r, m')" by (cases "RequisitionMetaData_IsValid m")
  show ?case
  proof (cases r)
    case None
    with Cons m show ?thesis by (auto split: prod.splits)
  next
    case (Some e)
    with Cons.prems m have "err = e" by simp
    with m Some RequisitionMetaData_error_shape [of m err] show ?thesis by simp
  qed
qed

lemma validateMetaDataCopies_error_shape:
  "validateMetaDataCopies ms = Some err \<Longrightarrow> \<exists>r. err = ''Meta-data '' @ r"
proof (induction ms)
  case Nil
  then show ?case by simp
next
  case (Cons m ms)
  obtain r m' where m: "RequisitionMetaData_IsValid m = (r, m')" by (cases "RequisitionMetaData_IsValid m")
  show ?case
  proof (cases r)
    case None
    with Cons m show ?thesis by auto
  next
    case (Some e)
    with Cons.prems m have "err = e" by simp
    with m Some RequisitionMetaData_error_shape [of m err] show ?thesis by simp
  qed
qed

lemma MonitoredService_error_shape:
  "fst (RequisitionMonitoredService_IsValid s) = Some err \<Longrightarrow>
     (\<exists>r. err = ''Service '' @ r) \<or> (\<exists>r. err = ''Invalid characters on service name '' @ r)
     \<or> (\<exists>r. err = ''Meta-data '' @ r)"
  using validateMetaDataRefs_error_shape [of "svc_MetaData s" err]
  by (auto simp: RequisitionMonitoredService_IsValid_def split: if_splits prod.splits)

lemma servicesLoop_error_shape:
  "fst (servicesLoop ss m) = Some err \<Longrightarrow>
     (\<exists>r. err = ''Service '' @ r) \<or> (\<exists>r. err = ''Invalid characters on service name '' @ r)
     \<or> (\<exists>r. err = ''Meta-data '' @ r)"
proof (induction ss arbitrary: m)
  case Nil
  then show ?case by simp
next
  case (Cons s ss)
  obtain r s' where s: "RequisitionMonitoredService_IsValid s = (r, s')"
    by (cases "RequisitionMonitoredService_IsValid s")
  show ?case
  proof (cases r)
    case None
    with Cons.prems s have "fst (servicesLoop ss (incr (svc_Name s') m)) = Some err"
      by (auto split: prod.splits)
    then show ?thesis by (rule Cons.IH)
  next
    case (Some e)
    with Cons.prems s have "err = e" by simp
    with s Some MonitoredService_error_shape [of s err] show ?thesis by simp
  qed
qed

lemma validateServices_error_shape:
  "fst (validateServices e i) = Some err \<Longrightarrow>
     (\<exists>r. err = ''Service '' @ r) \<or> (\<exists>r. err = ''Invalid characters on service name '' @ r)
     \<or> (\<exists>r. err = ''Meta-data '' @ r)"
proof -
  assume a: "fst (validateServices e i) = Some err"
  obtain r ss m where l: "servicesLoop (intf_Services i) [] = (r, ss, m)"
    by (cases "servicesLoop (intf_Services i) []")
  show ?thesis
  proof (cases r)
    case None
    with a l show ?thesis
      by (auto simp: validateServices_def split: option.splits)
  next
    case (Some x)
    with a l have "fst (servicesLoop (intf_Services i) []) = Some err"
      by (simp add: validateServices_def)
    then show ?thesis by (rule servicesLoop_error_shape)
  qed
qed

lemma validateIP_error_shape:
  "fst (validateIP e i) = Some err \<Longrightarrow>
     (\<exists>r. err = ''Cannot get address from '' @ r)
     \<or> (\<exists>ip. err = ip @ '' is not a valid IPv4 or IPv6 address'')"
  by (auto simp: validateIP_def split: if_splits prod.splits)

lemma Interface_error_shape:
  "fst (RequisitionInterface_IsValid e i) = Some err \<Longrightarrow> interfaceErrorShape err"
proof -
  assume a: "fst (RequisitionInterface_IsValid e i) = Some err"
  let ?i2 = "i\<lparr>intf_Status := (if intf_Status i = 0 then 1 else intf_Status i),
                intf_SnmpPrimary := (if intf_SnmpPrimary i = [] then ''N'' else intf_SnmpPrimary i)\<rparr>"
  consider (ip) "intf_IPAddress i = []"
    | (status) "intf_IPAddress i \<noteq> []" "intf_Status i \<notin> {0, 1, 3}"
    | (snmp) "intf_IPAddress i \<noteq> []" "intf_Status i \<in> {0, 1, 3}"
        "intf_SnmpPrimary i \<notin> {[], ''P'', ''S'', ''N''}"
    | (rest) "intf_IPAddress i \<noteq> []" "intf_Status i \<in> {0, 1, 3}"
        "intf_SnmpPrimary i \<in> {[], ''P'', ''S'', ''N''}"
    by blast
  then show ?thesis
  proof cases
    case ip
    with a RequisitionInterface_IsValid_cases [of i e] have "err = ''IP Address cannot be empty''"
      by simp
    then show ?thesis by (simp add: interfaceErrorShape_def)
  next
    case status
    with a RequisitionInterface_IsValid_cases [of i e]
    have "err = ''Invalid status for interface '' @ intf_IPAddress i @ '': ''
                  @ fmt_d (intf_Status i)"
      by simp
    then show ?thesis by (simp add: interfaceErrorShape_def)
  next
    case snmp
    with a RequisitionInterface_IsValid_cases [of i e]
    have "err = ''Invalid snmp-primary for interface '' @ intf_IPAddress i @ '': ''
                  @ intf_SnmpPrimary i"
      by simp
    then show ?thesis by (simp add: interfaceErrorShape_def)
  next
    case rest
    with RequisitionInterface_IsValid_cases [of i e]
    have eq: "RequisitionInterface_IsValid e i =
        (case validateIP e ?i2 of
           (Some err, i3) \<Rightarrow> (Some err, i3)
         | (None, i3) \<Rightarrow>
             (case validateServices e i3 of
                (Some err, i4) \<Rightarrow> (Some err, i4)
              | (None, i4) \<Rightarrow> (validateMetaDataCopies (intf_MetaData i4), i4)))"
      by blast
    obtain r3 i3 where v3: "validateIP e ?i2 = (r3, i3)" by (cases "validateIP e ?i2")
    obtain r4 i4 where v4: "validateServices e i3 = (r4, i4)" by (cases "validateServices e i3")
    show ?thesis
    proof (cases r3)
      case (Some x)
      with a eq v3 have "fst (validateIP e ?i2) = Some err" by simp
      from validateIP_error_shape [OF this] show ?thesis
        unfolding interfaceErrorShape_def by blast
    next
      case None
      note n3 = this
      show ?thesis
      proof (cases r4)
        case (Some x)
        with a eq v3 v4 n3 have "fst (validateServices e i3) = Some err" by simp
        from validateServices_error_shape [OF this] show ?thesis
          unfolding interfaceErrorShape_def by blast
      next
        case None
        with a eq v3 v4 n3 have "validateMetaDataCopies (intf_MetaData i4) = Some err" by simp
        from validateMetaDataCopies_error_shape [OF this] show ?thesis
          unfolding interfaceErrorShape_def by blast
      qed
    qed
  qed
qed

subsection \<open>Interfaces: past the field checks\<close>

lemma validateServices_fields:
  "intf_IPAddress (snd (validateServices e i)) = intf_IPAddress i
   \<and> intf_MetaData (snd (validateServices e i)) = intf_MetaData i
   \<and> intf_Status (snd (validateServices e i)) = intf_Status i
   \<and> intf_SnmpPrimary (snd (validateServices e i)) = intf_SnmpPrimary i"
  by (simp add: validateServices_def split: prod.splits option.splits)

lemma validateServices_success_services:
  "intf_Services i = intf_Services i' \<Longrightarrow>
     fst (validateServices e i) = None \<longleftrightarrow> fst (validateServices e i') = None"
  by (simp add: validateServices_def split: prod.splits option.splits)

lemma RequisitionInterface_IsValid_fields_fail:
  "intf_IPAddress i = [] \<or> intf_Status i \<notin> {0, 1, 3}
     \<or> intf_SnmpPrimary i \<notin> {[], ''P'', ''S'', ''N''} \<Longrightarrow>
   fst (RequisitionInterface_IsValid e i) \<noteq> None"
  using RequisitionInterface_IsValid_cases [of i e] by auto

lemma RequisitionInterface_IsValid_fields_pass:
  assumes "intf_IPAddress i \<noteq> []" "intf_Status i \<in> {0, 1, 3}"
    "intf_SnmpPrimary i \<in> {[], ''P'', ''S'', ''N''}"
  shows "RequisitionInterface_IsValid e i =
        (case validateIP e (normalized i) of
           (Some err, i3) \<Rightarrow> (Some err, i3)
         | (None, i3) \<Rightarrow>
             (case validateServices e i3 of
                (Some err, i4) \<Rightarrow> (Some err, i4)
              | (None, i4) \<Rightarrow> (validateMetaDataCopies (intf_MetaData i4), i4)))"
  using assms RequisitionInterface_IsValid_cases [of i e] unfolding normalized_def by blast

lemma resolution_messages_differ:
  "''Cannot get address from '' @ ip @ '' (invalid IP or FQDN); '' @ x
     \<noteq> ip @ '' is not a valid IPv4 or IPv6 address''"
proof
  assume "''Cannot get address from '' @ ip @ '' (invalid IP or FQDN); '' @ x
     = ip @ '' is not a valid IPv4 or IPv6 address''"
  then have "length (''Cannot get address from '' @ ip @ '' (invalid IP or FQDN); '' @ x)
     = length (ip @ '' is not a valid IPv4 or IPv6 address'')"
    by (rule arg_cong)
  then show False by simp
qed

subsection \<open>Nodes: past the field checks\<close>

lemma matchForbidden_iff: "matchForbidden s \<longleftrightarrow> set s \<inter> set forbiddenChars \<noteq> {}"
  by (auto simp: matchForbidden_def list_ex_iff)

lemma label_default:
  "(if node_NodeLabel n = [] then n\<lparr>node_NodeLabel := node_ForeignID n\<rparr> else n)
     = n\<lparr>node_NodeLabel := effectiveLabel n\<rparr>"
  by (cases n) (simp add: effectiveLabel_def)

lemma validateInterfaces_all_pass:
  assumes "\<forall>i \<in> set (node_Interfaces n). fst (RequisitionInterface_IsValid e i) = None"
  shows "validateInterfaces e n =
     (if primaries (node_Interfaces n) > 1 then
        Some (''Node '' @ node_NodeLabel n @ '' cannot have more than one primary interface'')
      else
        (case firstRepeated e (tally (map intf_IPAddress (node_Interfaces n)) []) of
           Some ipAddr \<Rightarrow> Some (''IP Address '' @ ipAddr @ '' is defined more than once on node ''
                                @ node_NodeLabel n)
         | None \<Rightarrow> None),
      n\<lparr>node_Interfaces := map (\<lambda>i. snd (RequisitionInterface_IsValid e i)) (node_Interfaces n)\<rparr>)"
  using interfacesLoop_all_pass [OF assms, of 0 "[]"]
  by (simp add: validateInterfaces_def split: option.splits)

lemma validateInterfaces_first_failure:
  assumes "node_Interfaces n = pre @ x # post"
    and "\<forall>i \<in> set pre. fst (RequisitionInterface_IsValid e i) = None"
    and "fst (RequisitionInterface_IsValid e x) = Some err"
  shows "validateInterfaces e n =
     (Some err, n\<lparr>node_Interfaces :=
        map (\<lambda>i. snd (RequisitionInterface_IsValid e i)) pre @ snd (RequisitionInterface_IsValid e x) # post\<rparr>)"
proof -
  obtain r rest pc m where l: "interfacesLoop e (pre @ x # post) 0 [] = (r, rest, pc, m)"
    by (cases "interfacesLoop e (pre @ x # post) 0 []") auto
  from interfacesLoop_first_failure [OF assms(2,3), of post 0 "[]"] l
  have "r = Some err"
    and "rest = map (\<lambda>i. snd (RequisitionInterface_IsValid e i)) pre @ snd (RequisitionInterface_IsValid e x) # post"
    by simp_all
  with l assms(1) show ?thesis by (simp add: validateInterfaces_def)
qed

lemma RequisitionNode_IsValid_fields_pass:
  assumes "nodeFieldsPass n"
  shows "RequisitionNode_IsValid e n =
     (case validateInterfaces e (n\<lparr>node_NodeLabel := effectiveLabel n\<rparr>) of
        (Some err, n2) \<Rightarrow> (Some err, n2)
      | (None, n2) \<Rightarrow>
          (case firstError RequisitionCategory_IsValid (node_Categories n2) of
             Some err \<Rightarrow> (Some err, n2)
           | None \<Rightarrow>
               (case firstError RequisitionAsset_IsValid (node_Assets n2) of
                  Some err \<Rightarrow> (Some err, n2)
                | None \<Rightarrow>
                    (case validateMetaDataRefs (node_MetaData n2) of
                       (r, ms) \<Rightarrow> (r, n2\<lparr>node_MetaData := ms\<rparr>)))))"
  using assms
  unfolding RequisitionNode_IsValid_def Let_def label_default nodeFieldsPass_def matchForbidden_iff
  by auto

lemma firstError_Category_shape:
  "firstError RequisitionCategory_IsValid cs = Some err \<Longrightarrow>
     (\<exists>r. err = ''Category '' @ r) \<or> (\<exists>r. err = ''Invalid characters on category name '' @ r)"
  by (induction cs) (auto simp: RequisitionCategory_IsValid_def split: option.splits if_splits)

lemma firstError_Asset_shape:
  "firstError RequisitionAsset_IsValid as = Some err \<Longrightarrow>
     (\<exists>r. err = ''Asset '' @ r) \<or> (\<exists>r. err = ''Invalid characters on asset name '' @ r)"
  by (induction as) (auto simp: RequisitionAsset_IsValid_def split: option.splits if_splits)

lemma RequisitionNode_IsValid_late_error_shape:
  assumes "nodeFieldsPass n"
    and "fst (validateInterfaces e (n\<lparr>node_NodeLabel := effectiveLabel n\<rparr>)) = None"
    and "fst (RequisitionNode_IsValid e n) = Some err"
  shows "(\<exists>r. err = ''Category '' @ r) \<or> (\<exists>r. err = ''Invalid characters on category name '' @ r)
     \<or> (\<exists>r. err = ''Asset '' @ r) \<or> (\<exists>r. err = ''Invalid characters on asset name '' @ r)
     \<or> (\<exists>r. err = ''Meta-data '' @ r)"
proof -
  obtain n2 where v: "validateInterfaces e (n\<lparr>node_NodeLabel := effectiveLabel n\<rparr>) = (None, n2)"
    using assms(2) by (cases "validateInterfaces e (n\<lparr>node_NodeLabel := effectiveLabel n\<rparr>)") auto
  note eq = RequisitionNode_IsValid_fields_pass [OF assms(1), of e, unfolded v, simplified]
  show ?thesis
  proof (cases "firstError RequisitionCategory_IsValid (node_Categories n2)")
    case (Some c)
    with eq assms(3) have "firstError RequisitionCategory_IsValid (node_Categories n2) = Some err" by simp
    from firstError_Category_shape [OF this] show ?thesis by blast
  next
    case None
    note nc = this
    show ?thesis
    proof (cases "firstError RequisitionAsset_IsValid (node_Assets n2)")
      case (Some a)
      with eq nc assms(3) have "firstError RequisitionAsset_IsValid (node_Assets n2) = Some err" by simp
      from firstError_Asset_shape [OF this] show ?thesis by blast
    next
      case None
      with eq nc assms(3) have "fst (validateMetaDataRefs (node_MetaData n2)) = Some err"
        by (simp split: prod.splits)
      from validateMetaDataRefs_error_shape [OF this] show ?thesis by blast
    qed
  qed
qed

lemma rangeVisitsAll_sampleEnv: "rangeVisitsAll sampleEnv"
  by (simp add: rangeVisitsAll_def sampleEnv_def)

lemma RequisitionNode_IsValid_fields_fail: "\<not> nodeFieldsPass n \<Longrightarrow> fst (RequisitionNode_IsValid e n) \<noteq> None"
  unfolding RequisitionNode_IsValid_def Let_def label_default nodeFieldsPass_def matchForbidden_iff
  by auto

lemma RequisitionNode_IsValid_interface_error:
  assumes "nodeFieldsPass n"
    and "fst (validateInterfaces e (n\<lparr>node_NodeLabel := effectiveLabel n\<rparr>)) = Some err"
  shows "fst (RequisitionNode_IsValid e n) = Some err"
  using assms(2) unfolding RequisitionNode_IsValid_fields_pass [OF assms(1)]
  by (cases "validateInterfaces e (n\<lparr>node_NodeLabel := effectiveLabel n\<rparr>)") auto

lemma first_failing_interface:
  assumes "\<not> (\<forall>i \<in> set intfs. fst (RequisitionInterface_IsValid e i) = None)"
  obtains pre x post err where "intfs = pre @ x # post"
    and "\<forall>i \<in> set pre. fst (RequisitionInterface_IsValid e i) = None"
    and "fst (RequisitionInterface_IsValid e x) = Some err"
proof -
  from assms have "\<exists>i \<in> set intfs. fst (RequisitionInterface_IsValid e i) \<noteq> None" by blast
  then obtain pre x post where s: "intfs = pre @ x # post"
    "fst (RequisitionInterface_IsValid e x) \<noteq> None"
    "\<forall>i \<in> set pre. \<not> fst (RequisitionInterface_IsValid e i) \<noteq> None"
    using split_list_first_prop [of intfs "\<lambda>i. fst (RequisitionInterface_IsValid e i) \<noteq> None"] by blast
  then obtain err where "fst (RequisitionInterface_IsValid e x) = Some err" by auto
  with s that show ?thesis by auto
qed

lemma RequisitionNode_IsValid_some_interface_fails:
  assumes "\<not> (\<forall>i \<in> set (node_Interfaces n). fst (RequisitionInterface_IsValid e i) = None)"
  shows "fst (RequisitionNode_IsValid e n) \<noteq> None"
proof (cases "nodeFieldsPass n")
  case False
  then show ?thesis by (rule RequisitionNode_IsValid_fields_fail)
next
  case True
  from assms obtain pre x post err where s: "node_Interfaces n = pre @ x # post"
    "\<forall>i \<in> set pre. fst (RequisitionInterface_IsValid e i) = None"
    "fst (RequisitionInterface_IsValid e x) = Some err"
    by (rule first_failing_interface)
  let ?n1 = "n\<lparr>node_NodeLabel := effectiveLabel n\<rparr>"
  from s(1) have "node_Interfaces ?n1 = pre @ x # post" by simp
  from validateInterfaces_first_failure [OF this s(2,3)]
  have "fst (validateInterfaces e ?n1) = Some err" by simp
  from RequisitionNode_IsValid_interface_error [OF True this] show ?thesis by simp
qed

lemma validateInterfaces_duplicates:
  assumes v: "rangeVisitsAll e"
    and p: "\<forall>i \<in> set (node_Interfaces n). fst (RequisitionInterface_IsValid e i) = None"
    and c: "primaries (node_Interfaces n) \<le> 1"
  shows "(distinct (map intf_IPAddress (node_Interfaces n)) \<longrightarrow>
            fst (validateInterfaces e n) = None)
     \<and> (\<not> distinct (map intf_IPAddress (node_Interfaces n)) \<longrightarrow>
            (\<exists>ip. 1 < count_list (map intf_IPAddress (node_Interfaces n)) ip
               \<and> fst (validateInterfaces e n) =
                   Some (''IP Address '' @ ip @ '' is defined more than once on node ''
                          @ node_NodeLabel n)))"
proof -
  let ?ips = "map intf_IPAddress (node_Interfaces n)"
  show ?thesis
  proof (cases "firstRepeated e (tally ?ips [])")
    case None
    with firstRepeated_tally_None [OF v, of ?ips] have "distinct ?ips" by simp
    moreover from None validateInterfaces_all_pass [OF p] c
    have "fst (validateInterfaces e n) = None" by simp
    ultimately show ?thesis by simp
  next
    case (Some ip)
    with firstRepeated_tally_None [OF v, of ?ips] have "\<not> distinct ?ips" by simp
    moreover from firstRepeated_tally_Some [OF v Some] have "1 < count_list ?ips ip" .
    moreover from Some validateInterfaces_all_pass [OF p] c
    have "fst (validateInterfaces e n) =
            Some (''IP Address '' @ ip @ '' is defined more than once on node '' @ node_NodeLabel n)"
      by simp
    ultimately show ?thesis by blast
  qed
qed

subsection \<open>Requisitions: past the name checks\<close>

lemma Requisition_IsValid_name_ok:
  assumes "req_Name r \<noteq> []" "set (req_Name r) \<inter> set forbiddenChars = {}"
  shows "Requisition_IsValid e r =
     (case nodesLoop e (req_Name r) (req_Nodes r) [] of
        (Some err, ns, foreignIDs) \<Rightarrow> (Some err, r\<lparr>req_Nodes := ns\<rparr>)
      | (None, ns, foreignIDs) \<Rightarrow>
          (case firstRepeated e foreignIDs of
             Some fid \<Rightarrow>
               (Some (''Duplicate Foreign ID '' @ fid @ '' on requisition '' @ req_Name r),
                r\<lparr>req_Nodes := ns\<rparr>)
           | None \<Rightarrow> (None, r\<lparr>req_Nodes := ns\<rparr>)))"
  using assms by (simp add: Requisition_IsValid_def matchForbidden_iff)

subsection \<open>Which errors can be the forbidden-character error\<close>

lemma forbiddenChars_set:
  "set forbiddenChars =
     {CHR ''/'', CHR 0x5C, CHR ''?'', CHR '':'', CHR ''&'', CHR ''*'', CHR 0x27, CHR 0x22}"
  by (simp add: forbiddenChars_def)

lemma forbiddenTail_lists_all: "set forbiddenChars \<subseteq> set forbiddenTail"
  by (simp add: forbiddenChars_def forbiddenTail_def)

lemma forbiddenTail_last: "last (p @ name @ forbiddenTail) = CHR 0x22"
  by (simp add: forbiddenTail_def)

lemma not_literal_message_differs:
  "ip @ '' is not a valid IPv4 or IPv6 address'' \<noteq> p @ name @ forbiddenTail"
proof
  assume "ip @ '' is not a valid IPv4 or IPv6 address'' = p @ name @ forbiddenTail"
  then have "last (ip @ '' is not a valid IPv4 or IPv6 address'') = last (p @ name @ forbiddenTail)"
    by (rule arg_cong)
  then show False by (simp add: forbiddenTail_last)
qed

lemma interfaceErrorShape_not_foreignID:
  assumes "interfaceErrorShape err"
  shows "err \<noteq> ''Invalid characters on Foreign ID '' @ name @ forbiddenTail"
proof
  assume e: "err = ''Invalid characters on Foreign ID '' @ name @ forbiddenTail"
  have special: "''Invalid characters on Foreign ID '' @ name @ forbiddenTail
                   \<noteq> ip @ '' is not a valid IPv4 or IPv6 address''" for ip
    using not_literal_message_differs [of ip "''Invalid characters on Foreign ID ''" name]
    by (rule not_sym)
  from assms show False
    unfolding interfaceErrorShape_def e using special by auto
qed

lemma interfacesLoop_error_shape:
  "fst (interfacesLoop e intfs pc m) = Some err \<Longrightarrow> interfaceErrorShape err"
proof (induction intfs arbitrary: pc m)
  case Nil
  then show ?case by simp
next
  case (Cons i intfs)
  obtain r i' where i: "RequisitionInterface_IsValid e i = (r, i')" by (cases "RequisitionInterface_IsValid e i")
  show ?case
  proof (cases r)
    case None
    with Cons.prems i
    have "fst (interfacesLoop e intfs (if intf_SnmpPrimary i = ''P'' then pc + 1 else pc)
                 (incr (intf_IPAddress i) m)) = Some err"
      by (auto simp: Let_def split: prod.splits)
    then show ?thesis by (rule Cons.IH)
  next
    case (Some x)
    with Cons.prems i have "fst (RequisitionInterface_IsValid e i) = Some err" by (simp add: Let_def)
    then show ?thesis by (rule Interface_error_shape)
  qed
qed

lemma validateInterfaces_error_shape:
  assumes "fst (validateInterfaces e n) = Some err"
  shows "interfaceErrorShape err \<or> (\<exists>r. err = ''Node '' @ r) \<or> (\<exists>r. err = ''IP Address '' @ r)"
proof -
  obtain r intfs pc m where l: "interfacesLoop e (node_Interfaces n) 0 [] = (r, intfs, pc, m)"
    by (cases "interfacesLoop e (node_Interfaces n) 0 []") auto
  show ?thesis
  proof (cases r)
    case None
    with assms l show ?thesis
      by (auto simp: validateInterfaces_def split: if_splits option.splits)
  next
    case (Some x)
    with assms l have "fst (interfacesLoop e (node_Interfaces n) 0 []) = Some err"
      by (simp add: validateInterfaces_def)
    then show ?thesis using interfacesLoop_error_shape by blast
  qed
qed

lemma RequisitionNode_IsValid_not_foreignID_message:
  assumes clean: "set (node_ForeignID n) \<inter> set forbiddenChars = {}"
  shows "fst (RequisitionNode_IsValid e n)
     \<noteq> Some (''Invalid characters on Foreign ID '' @ node_ForeignID n @ forbiddenTail)"
proof
  let ?t = "''Invalid characters on Foreign ID '' @ node_ForeignID n @ forbiddenTail"
  let ?n1 = "n\<lparr>node_NodeLabel := effectiveLabel n\<rparr>"
  assume a: "fst (RequisitionNode_IsValid e n) = Some ?t"
  show False
  proof (cases "nodeFieldsPass n")
    case False
    with clean a show False
      unfolding RequisitionNode_IsValid_def Let_def label_default nodeFieldsPass_def matchForbidden_iff
      by (auto split: if_splits)
  next
    case True
    show False
    proof (cases "fst (validateInterfaces e ?n1)")
      case None
      from RequisitionNode_IsValid_late_error_shape [OF True None a] show False by simp
    next
      case (Some err)
      from RequisitionNode_IsValid_interface_error [OF True Some] a have "err = ?t" by simp
      moreover from validateInterfaces_error_shape [OF Some]
      have "interfaceErrorShape err \<or> (\<exists>r. err = ''Node '' @ r) \<or> (\<exists>r. err = ''IP Address '' @ r)" .
      ultimately show False
        using interfaceErrorShape_not_foreignID [of err "node_ForeignID n"] by auto
    qed
  qed
qed

lemma nodesLoop_error_shape:
  "fst (nodesLoop e name ns m) = Some err \<Longrightarrow> \<exists>r. err = ''Problem on node '' @ r"
proof (induction ns arbitrary: m)
  case Nil
  then show ?case by simp
next
  case (Cons n ns)
  obtain r n' where n: "RequisitionNode_IsValid e n = (r, n')" by (cases "RequisitionNode_IsValid e n")
  show ?case
  proof (cases r)
    case None
    with Cons.prems n
    have "fst (nodesLoop e name ns (incr (node_ForeignID n) m)) = Some err"
      by (auto simp: Let_def split: prod.splits)
    then show ?thesis by (rule Cons.IH)
  next
    case (Some x)
    with Cons.prems n show ?thesis by (auto simp: Let_def)
  qed
qed

lemma Requisition_IsValid_not_name_message:
  assumes clean: "set (req_Name r) \<inter> set forbiddenChars = {}"
  shows "fst (Requisition_IsValid e r)
     \<noteq> Some (''Invalid characters on requisition name '' @ req_Name r @ forbiddenTail)"
proof (cases "req_Name r = []")
  case True
  then show ?thesis by (simp add: Requisition_IsValid_def)
next
  case False
  obtain res ns ids where l: "nodesLoop e (req_Name r) (req_Nodes r) [] = (res, ns, ids)"
    by (cases "nodesLoop e (req_Name r) (req_Nodes r) []") auto
  show ?thesis
  proof (cases res)
    case None
    with l show ?thesis
      unfolding Requisition_IsValid_name_ok [OF False clean]
      by (simp split: option.splits)
  next
    case (Some err)
    with l have "fst (nodesLoop e (req_Name r) (req_Nodes r) []) = Some err" by simp
    from nodesLoop_error_shape [OF this] obtain x where "err = ''Problem on node '' @ x" ..
    with l Some show ?thesis
      unfolding Requisition_IsValid_name_ok [OF False clean] by simp
  qed
qed

lemma MonitoredService_not_name_message:
  assumes clean: "set (svc_Name s) \<inter> set forbiddenChars = {}"
  shows "fst (RequisitionMonitoredService_IsValid s)
     \<noteq> Some (''Invalid characters on service name '' @ svc_Name s @ forbiddenTail)"
proof
  let ?t = "''Invalid characters on service name '' @ svc_Name s @ forbiddenTail"
  assume a: "fst (RequisitionMonitoredService_IsValid s) = Some ?t"
  show False
  proof (cases "svc_Name s = []")
    case True
    with a show False by (simp add: RequisitionMonitoredService_IsValid_def)
  next
    case False
    with a clean have "fst (validateMetaDataRefs (svc_MetaData s)) = Some ?t"
      by (simp add: RequisitionMonitoredService_IsValid_def matchForbidden_iff split: prod.splits)
    from validateMetaDataRefs_error_shape [OF this] show False by simp
  qed
qed

subsection \<open>What a successful validation leaves behind\<close>

lemma validateIP_fields:
  "intf_MetaData (snd (validateIP e i)) = intf_MetaData i
   \<and> intf_Status (snd (validateIP e i)) = intf_Status i
   \<and> intf_SnmpPrimary (snd (validateIP e i)) = intf_SnmpPrimary i
   \<and> intf_Services (snd (validateIP e i)) = intf_Services i"
  by (simp add: validateIP_def split: prod.splits)

lemma RequisitionInterface_IsValid_keeps_MetaData:
  "intf_MetaData (snd (RequisitionInterface_IsValid e i)) = intf_MetaData i"
proof (cases "intf_IPAddress i \<noteq> [] \<and> intf_Status i \<in> {0, 1, 3}
        \<and> intf_SnmpPrimary i \<in> {[], ''P'', ''S'', ''N''}")
  case False
  then show ?thesis using RequisitionInterface_IsValid_cases [of i e] by auto
next
  case True
  obtain r3 i3 where v: "validateIP e (normalized i) = (r3, i3)"
    by (cases "validateIP e (normalized i)")
  obtain r4 i4 where s: "validateServices e i3 = (r4, i4)" by (cases "validateServices e i3")
  from validateIP_fields [of e "normalized i"] v
  have "intf_MetaData i3 = intf_MetaData i" by (simp add: normalized_def)
  moreover from validateServices_fields [of e i3] s
  have "intf_MetaData i4 = intf_MetaData i3" by simp
  ultimately show ?thesis
    using True v s by (cases r3; cases r4) (simp_all add: RequisitionInterface_IsValid_fields_pass)
qed

lemma RequisitionInterface_IsValid_success_defaults:
  assumes "fst (RequisitionInterface_IsValid e i) = None"
  shows "intf_Status (snd (RequisitionInterface_IsValid e i)) = (if intf_Status i = 0 then 1 else intf_Status i)
     \<and> intf_SnmpPrimary (snd (RequisitionInterface_IsValid e i))
         = (if intf_SnmpPrimary i = [] then ''N'' else intf_SnmpPrimary i)"
proof -
  from assms RequisitionInterface_IsValid_fields_fail [of i e]
  have ok: "intf_IPAddress i \<noteq> []" "intf_Status i \<in> {0, 1, 3}"
    "intf_SnmpPrimary i \<in> {[], ''P'', ''S'', ''N''}"
    by blast+
  obtain r3 i3 where v: "validateIP e (normalized i) = (r3, i3)"
    by (cases "validateIP e (normalized i)")
  obtain r4 i4 where s: "validateServices e i3 = (r4, i4)" by (cases "validateServices e i3")
  from validateIP_fields [of e "normalized i"] v
  have "intf_Status i3 = intf_Status (normalized i)"
    "intf_SnmpPrimary i3 = intf_SnmpPrimary (normalized i)" by simp_all
  moreover from validateServices_fields [of e i3] s
  have "intf_Status i4 = intf_Status i3" "intf_SnmpPrimary i4 = intf_SnmpPrimary i3" by simp_all
  ultimately show ?thesis
    using ok v s by (cases r3; cases r4) (simp_all add: RequisitionInterface_IsValid_fields_pass normalized_def)
qed

lemma RequisitionMetaData_IsValid_context:
  "md_Context (snd (RequisitionMetaData_IsValid m))
     = (if md_Context m = [] then ''requisition'' else md_Context m)"
  by (simp add: RequisitionMetaData_IsValid_def Let_def)

lemma validateMetaDataRefs_success:
  "fst (validateMetaDataRefs ms) = None \<Longrightarrow>
     snd (validateMetaDataRefs ms) = map (\<lambda>m. snd (RequisitionMetaData_IsValid m)) ms"
proof (induction ms)
  case Nil
  then show ?case by simp
next
  case (Cons m ms)
  obtain r m' where m: "RequisitionMetaData_IsValid m = (r, m')" by (cases "RequisitionMetaData_IsValid m")
  with Cons.prems have r: "r = None" by (cases r) simp_all
  with Cons m show ?case by (simp split: prod.splits)
qed

lemma RequisitionNode_IsValid_success:
  assumes "fst (RequisitionNode_IsValid e n) = None"
  shows "node_NodeLabel (snd (RequisitionNode_IsValid e n)) = effectiveLabel n
     \<and> node_Interfaces (snd (RequisitionNode_IsValid e n))
         = map (\<lambda>i. snd (RequisitionInterface_IsValid e i)) (node_Interfaces n)
     \<and> node_MetaData (snd (RequisitionNode_IsValid e n))
         = map (\<lambda>m. snd (RequisitionMetaData_IsValid m)) (node_MetaData n)"
proof -
  let ?n1 = "n\<lparr>node_NodeLabel := effectiveLabel n\<rparr>"
  from assms RequisitionNode_IsValid_fields_fail [of n e] have f: "nodeFieldsPass n" by blast
  from assms RequisitionNode_IsValid_some_interface_fails [of n e]
  have "\<forall>i \<in> set (node_Interfaces n). fst (RequisitionInterface_IsValid e i) = None" by blast
  then have p: "\<forall>i \<in> set (node_Interfaces ?n1). fst (RequisitionInterface_IsValid e i) = None" by simp
  obtain r2 n2 where v: "validateInterfaces e ?n1 = (r2, n2)"
    by (cases "validateInterfaces e ?n1")
  from RequisitionNode_IsValid_interface_error [OF f, of e] assms v have r2: "r2 = None"
    by (cases r2) simp_all
  from validateInterfaces_all_pass [OF p] v
  have n2: "n2 = ?n1\<lparr>node_Interfaces := map (\<lambda>i. snd (RequisitionInterface_IsValid e i)) (node_Interfaces n)\<rparr>"
    by simp
  obtain r5 ms where md: "validateMetaDataRefs (node_MetaData n) = (r5, ms)"
    by (cases "validateMetaDataRefs (node_MetaData n)")
  from assms v r2 n2 md have "r5 = None"
    unfolding RequisitionNode_IsValid_fields_pass [OF f]
    by (simp split: option.splits)
  with validateMetaDataRefs_success [of "node_MetaData n"] md
  have ms: "ms = map (\<lambda>m. snd (RequisitionMetaData_IsValid m)) (node_MetaData n)" by simp
  from assms v r2 n2 md ms show ?thesis
    unfolding RequisitionNode_IsValid_fields_pass [OF f]
    by (simp split: option.splits)
qed

lemma RequisitionMonitoredService_IsValid_success:
  assumes "fst (RequisitionMonitoredService_IsValid s) = None"
  shows "snd (RequisitionMonitoredService_IsValid s)
     = s\<lparr>svc_MetaData := map (\<lambda>m. snd (RequisitionMetaData_IsValid m)) (svc_MetaData s)\<rparr>"
proof -
  from assms have "fst (validateMetaDataRefs (svc_MetaData s)) = None"
    by (auto simp: RequisitionMonitoredService_IsValid_def split: if_splits prod.splits)
  from validateMetaDataRefs_success [OF this] assms show ?thesis
    by (auto simp: RequisitionMonitoredService_IsValid_def split: if_splits prod.splits)
qed

lemma servicesLoop_success:
  "fst (servicesLoop ss m) = None \<Longrightarrow>
     fst (snd (servicesLoop ss m)) = map (\<lambda>s. snd (RequisitionMonitoredService_IsValid s)) ss"
proof (induction ss arbitrary: m)
  case Nil
  then show ?case by simp
next
  case (Cons s ss)
  obtain r s' where s: "RequisitionMonitoredService_IsValid s = (r, s')"
    by (cases "RequisitionMonitoredService_IsValid s")
  with Cons.prems have r: "r = None" by (cases r) simp_all
  with Cons.prems s have "fst (servicesLoop ss (incr (svc_Name s') m)) = None"
    by (simp split: prod.splits)
  from Cons.IH [OF this] s r show ?case by (auto split: prod.splits)
qed

lemma validateServices_success:
  assumes "fst (validateServices e i) = None"
  shows "intf_Services (snd (validateServices e i))
     = map (\<lambda>s. snd (RequisitionMonitoredService_IsValid s)) (intf_Services i)"
proof -
  obtain r ss m where l: "servicesLoop (intf_Services i) [] = (r, ss, m)"
    by (cases "servicesLoop (intf_Services i) []")
  with assms have r: "r = None"
    by (cases r) (simp_all add: validateServices_def)
  with servicesLoop_success [of "intf_Services i" "[]"] l
  have "ss = map (\<lambda>s. snd (RequisitionMonitoredService_IsValid s)) (intf_Services i)" by simp
  with l r show ?thesis by (simp add: validateServices_def split: option.splits)
qed

lemma RequisitionInterface_IsValid_success_services:
  assumes "fst (RequisitionInterface_IsValid e i) = None"
  shows "intf_Services (snd (RequisitionInterface_IsValid e i))
     = map (\<lambda>s. snd (RequisitionMonitoredService_IsValid s)) (intf_Services i)"
proof -
  from assms RequisitionInterface_IsValid_fields_fail [of i e]
  have ok: "intf_IPAddress i \<noteq> []" "intf_Status i \<in> {0, 1, 3}"
    "intf_SnmpPrimary i \<in> {[], ''P'', ''S'', ''N''}"
    by blast+
  obtain r3 i3 where v: "validateIP e (normalized i) = (r3, i3)"
    by (cases "validateIP e (normalized i)")
  obtain r4 i4 where s: "validateServices e i3 = (r4, i4)" by (cases "validateServices e i3")
  from assms ok v s have r: "r3 = None" "r4 = None"
    by (cases r3; cases r4; simp add: RequisitionInterface_IsValid_fields_pass)+
  from validateIP_fields [of e "normalized i"] v
  have "intf_Services i3 = intf_Services i" by (simp add: normalized_def)
  moreover from validateServices_success [of e i3] s r
  have "intf_Services i4 = map (\<lambda>s. snd (RequisitionMonitoredService_IsValid s)) (intf_Services i3)"
    by simp
  ultimately show ?thesis using ok v s r by (simp add: RequisitionInterface_IsValid_fields_pass)
qed

lemma Requisition_IsValid_success:
  assumes "fst (Requisition_IsValid e r) = None"
  shows "snd (Requisition_IsValid e r)
     = r\<lparr>req_Nodes := map (\<lambda>n. snd (RequisitionNode_IsValid e n)) (req_Nodes r)\<rparr>
     \<and> (\<forall>n \<in> set (req_Nodes r). fst (RequisitionNode_IsValid e n) = None)"
proof -
  from assms have nm: "req_Name r \<noteq> []" "set (req_Name r) \<inter> set forbiddenChars = {}"
    by (auto simp: Requisition_IsValid_def matchForbidden_iff split: if_splits)
  have p: "\<forall>n \<in> set (req_Nodes r). fst (RequisitionNode_IsValid e n) = None"
  proof (rule ccontr)
    assume "\<not> (\<forall>n \<in> set (req_Nodes r). fst (RequisitionNode_IsValid e n) = None)"
    then have "\<exists>n \<in> set (req_Nodes r). fst (RequisitionNode_IsValid e n) \<noteq> None" by blast
    then obtain pre x post where s: "req_Nodes r = pre @ x # post"
      "fst (RequisitionNode_IsValid e x) \<noteq> None" "\<forall>n \<in> set pre. \<not> fst (RequisitionNode_IsValid e n) \<noteq> None"
      using split_list_first_prop [of "req_Nodes r" "\<lambda>n. fst (RequisitionNode_IsValid e n) \<noteq> None"]
      by blast
    then obtain err where x: "fst (RequisitionNode_IsValid e x) = Some err" by auto
    from s(3) have pre: "\<forall>n \<in> set pre. fst (RequisitionNode_IsValid e n) = None" by simp
    obtain res ns ids where l: "nodesLoop e (req_Name r) (pre @ x # post) [] = (res, ns, ids)"
      by (cases "nodesLoop e (req_Name r) (pre @ x # post) []") auto
    from nodesLoop_first_failure [OF pre x, of "req_Name r" post "[]"] l
    have "res \<noteq> None" by simp
    with l s(1) assms show False
      unfolding Requisition_IsValid_name_ok [OF nm] by auto
  qed
  from assms show ?thesis
    unfolding Requisition_IsValid_name_ok [OF nm]
    by (simp add: nodesLoop_all_pass [OF p] p split: option.splits)
qed

subsection \<open>Evaluating the sample inputs\<close>

lemmas sample_defs = sampleEnv_def sampleEnvNoFqdn_def mkNode_def mkInterface_def
lemmas eval_defs = RequisitionNode_IsValid_def validateInterfaces_def RequisitionInterface_IsValid_def validateIP_def
  validateServices_def firstRepeated_def matchForbidden_def forbiddenChars_def forbiddenTail_def
  primaries_def nodeFieldsPass_def effectiveLabel_def Let_def fmt_d_samples

subsection \<open>Meta-data: the default outlives a failure\<close>

text \<open>
  Claim C10. \<^verbatim>\<open>RequisitionMetaData.IsValid\<close> sets the context default before it looks at
  the key and the value. So an entry with an empty context and an empty key, or an empty
  value, is rejected, and the entry it leaves behind has the context \<open>requisition\<close>: it
  is the entry with that one field changed, and so differs from the entry passed in.
\<close>

theorem metadata_default_survives_failure:
  "md_Context m = [] \<and> (md_Key m = [] \<or> md_Value m = []) \<longrightarrow>
     fst (RequisitionMetaData_IsValid m) \<noteq> None
     \<and> snd (RequisitionMetaData_IsValid m) = m\<lparr>md_Context := ''requisition''\<rparr>
     \<and> md_Context (snd (RequisitionMetaData_IsValid m)) = ''requisition''
     \<and> snd (RequisitionMetaData_IsValid m) \<noteq> m"
  by (auto simp: RequisitionMetaData_IsValid_def Let_def dest: arg_cong [where f = md_Context])

theorem metadata_default_survives_failure_witness:
  "md_Context \<lparr>md_Key = [], md_Value = ''v'', md_Context = []\<rparr> = []
   \<and> md_Key \<lparr>md_Key = [], md_Value = ''v'', md_Context = []\<rparr> = []
   \<and> RequisitionMetaData_IsValid \<lparr>md_Key = [], md_Value = ''v'', md_Context = []\<rparr>
       = (Some ''Meta-data key cannot be empty'',
          \<lparr>md_Key = [], md_Value = ''v'', md_Context = ''requisition''\<rparr>)"
  using metadata_default_survives_failure
    [of "\<lparr>md_Key = [], md_Value = ''v'', md_Context = []\<rparr>"]
  by (simp add: RequisitionMetaData_IsValid_def)

subsection \<open>Interfaces: the order of the field checks\<close>

text \<open>
  Claim C4. \<^verbatim>\<open>RequisitionInterface.IsValid\<close> checks in a fixed order and returns the
  first failure. An empty address fails first, whatever the other fields hold, and leaves
  the interface as it was. Otherwise a status other than 0, 1 and 3 fails, whatever the
  primary flag holds. Otherwise the status 0 has become 1, and a primary flag other than
  empty, P, S and N fails. In these three cases the result does not depend on the
  environment: no address is resolved and no service or meta-data entry is visited. Only
  when all three checks pass does the interface, with status and primary flag defaulted,
  go through \<^verbatim>\<open>validateIP\<close>, then \<^verbatim>\<open>validateServices\<close>, then its meta-data.
\<close>

theorem interface_check_order:
  "(intf_IPAddress i = [] \<longrightarrow>
      RequisitionInterface_IsValid e i = (Some ''IP Address cannot be empty'', i))
   \<and> (intf_IPAddress i \<noteq> [] \<and> intf_Status i \<notin> {0, 1, 3} \<longrightarrow>
      RequisitionInterface_IsValid e i =
        (Some (''Invalid status for interface '' @ intf_IPAddress i @ '': ''
                @ fmt_d (intf_Status i)), i))
   \<and> (intf_IPAddress i \<noteq> [] \<and> intf_Status i \<in> {0, 1, 3}
        \<and> intf_SnmpPrimary i \<notin> {[], ''P'', ''S'', ''N''} \<longrightarrow>
      RequisitionInterface_IsValid e i =
        (Some (''Invalid snmp-primary for interface '' @ intf_IPAddress i @ '': ''
                @ intf_SnmpPrimary i),
         i\<lparr>intf_Status := (if intf_Status i = 0 then 1 else intf_Status i)\<rparr>))
   \<and> (intf_IPAddress i \<noteq> [] \<and> intf_Status i \<in> {0, 1, 3}
        \<and> intf_SnmpPrimary i \<in> {[], ''P'', ''S'', ''N''} \<longrightarrow>
      RequisitionInterface_IsValid e i =
        (case validateIP e
                (i\<lparr>intf_Status := (if intf_Status i = 0 then 1 else intf_Status i),
                   intf_SnmpPrimary :=
                     (if intf_SnmpPrimary i = [] then ''N'' else intf_SnmpPrimary i)\<rparr>) of
           (Some err, i3) \<Rightarrow> (Some err, i3)
         | (None, i3) \<Rightarrow>
             (case validateServices e i3 of
                (Some err, i4) \<Rightarrow> (Some err, i4)
              | (None, i4) \<Rightarrow> (validateMetaDataCopies (intf_MetaData i4), i4))))"
  unfolding RequisitionInterface_IsValid_def Let_def status_default snmpPrimary_default
  by auto

theorem interface_check_order_witness:
  "RequisitionInterface_IsValid sampleEnv (mkInterface [] ''X'' 7)
     = (Some ''IP Address cannot be empty'', mkInterface [] ''X'' 7)
   \<and> RequisitionInterface_IsValid sampleEnv (mkInterface ''hostA'' ''X'' 7)
     = (Some ''Invalid status for interface hostA: 7'', mkInterface ''hostA'' ''X'' 7)
   \<and> RequisitionInterface_IsValid sampleEnv (mkInterface ''hostA'' ''X'' 0)
     = (Some ''Invalid snmp-primary for interface hostA: X'', mkInterface ''hostA'' ''X'' 1)
   \<and> RequisitionInterface_IsValid sampleEnv (mkInterface ''hostA'' [] 0)
     = (None, mkInterface ''10.0.0.1'' ''N'' 1)"
  using interface_check_order [of "mkInterface [] ''X'' 7" sampleEnv]
    interface_check_order [of "mkInterface ''hostA'' ''X'' 7" sampleEnv]
    interface_check_order [of "mkInterface ''hostA'' ''X'' 0" sampleEnv]
    interface_check_order [of "mkInterface ''hostA'' [] 0" sampleEnv]
  by (simp add: mkInterface_def sampleEnv_def validateIP_def validateServices_def
        firstRepeated_def fmt_d_samples)

subsection \<open>Nodes: at most one primary interface\<close>

text \<open>
  Claim C7, as amended. A node with two or more interfaces flagged \<open>P\<close> never validates.
  The failure is the error naming the node (by its label, defaulted to the foreign ID) when
  the checks that come first pass: the node's own field checks and the validation of each
  interface. A node that passes those checks and has exactly one interface flagged \<open>P\<close>
  does not fail with that error.

  As stated, for every node with two primary interfaces, the claim fails: the interfaces
  are validated first, and the error of an invalid interface is returned as it is, without
  the node's name.
\<close>

theorem primary_interface_limit:
  "(2 \<le> primaries (node_Interfaces n) \<longrightarrow> fst (RequisitionNode_IsValid e n) \<noteq> None)
   \<and> (nodeFieldsPass n \<and> (\<forall>i \<in> set (node_Interfaces n). fst (RequisitionInterface_IsValid e i) = None)
        \<and> 2 \<le> primaries (node_Interfaces n) \<longrightarrow>
      fst (RequisitionNode_IsValid e n) =
        Some (''Node '' @ effectiveLabel n @ '' cannot have more than one primary interface''))
   \<and> (nodeFieldsPass n \<and> (\<forall>i \<in> set (node_Interfaces n). fst (RequisitionInterface_IsValid e i) = None)
        \<and> primaries (node_Interfaces n) = 1 \<longrightarrow>
      fst (RequisitionNode_IsValid e n) \<noteq>
        Some (''Node '' @ effectiveLabel n @ '' cannot have more than one primary interface''))"
proof -
  let ?n1 = "n\<lparr>node_NodeLabel := effectiveLabel n\<rparr>"
  let ?msg = "''Node '' @ effectiveLabel n @ '' cannot have more than one primary interface''"
  have many: "fst (RequisitionNode_IsValid e n) = Some ?msg"
    if f: "nodeFieldsPass n"
      and p: "\<forall>i \<in> set (node_Interfaces n). fst (RequisitionInterface_IsValid e i) = None"
      and c: "2 \<le> primaries (node_Interfaces n)"
  proof -
    from p have "\<forall>i \<in> set (node_Interfaces ?n1). fst (RequisitionInterface_IsValid e i) = None" by simp
    from validateInterfaces_all_pass [OF this] c
    have "fst (validateInterfaces e ?n1) = Some ?msg" by simp
    from RequisitionNode_IsValid_interface_error [OF f this] show ?thesis .
  qed
  have always: "fst (RequisitionNode_IsValid e n) \<noteq> None" if c: "2 \<le> primaries (node_Interfaces n)"
  proof (cases "nodeFieldsPass n \<and> (\<forall>i \<in> set (node_Interfaces n). fst (RequisitionInterface_IsValid e i) = None)")
    case True
    with many c show ?thesis by simp
  next
    case False
    then show ?thesis
      using RequisitionNode_IsValid_fields_fail [of n e] RequisitionNode_IsValid_some_interface_fails [of n e] by blast
  qed
  have one: "fst (RequisitionNode_IsValid e n) \<noteq> Some ?msg"
    if f: "nodeFieldsPass n"
      and p: "\<forall>i \<in> set (node_Interfaces n). fst (RequisitionInterface_IsValid e i) = None"
      and c: "primaries (node_Interfaces n) = 1"
  proof
    assume a: "fst (RequisitionNode_IsValid e n) = Some ?msg"
    from p have p1: "\<forall>i \<in> set (node_Interfaces ?n1). fst (RequisitionInterface_IsValid e i) = None" by simp
    show False
    proof (cases "fst (validateInterfaces e ?n1)")
      case None
      from RequisitionNode_IsValid_late_error_shape [OF f None a] show False by simp
    next
      case (Some err)
      with validateInterfaces_all_pass [OF p1] c
      obtain ip where "err = ''IP Address '' @ ip @ '' is defined more than once on node ''
                               @ effectiveLabel n"
        by (auto split: option.splits)
      moreover from RequisitionNode_IsValid_interface_error [OF f Some] a have "err = ?msg" by simp
      ultimately show False by simp
    qed
  qed
  from many always one show ?thesis by blast
qed

theorem primary_interface_limit_witness:
  "nodeFieldsPass (mkNode ''n1'' [mkInterface ''10.0.0.1'' ''P'' 0, mkInterface ''10.0.0.2'' ''P'' 0])
   \<and> primaries [mkInterface ''10.0.0.1'' ''P'' 0, mkInterface ''10.0.0.2'' ''P'' 0] = 2
   \<and> fst (RequisitionNode_IsValid sampleEnv
          (mkNode ''n1'' [mkInterface ''10.0.0.1'' ''P'' 0, mkInterface ''10.0.0.2'' ''P'' 0]))
       = Some ''Node n1 cannot have more than one primary interface''
   \<and> primaries [mkInterface ''10.0.0.1'' ''P'' 0, mkInterface ''10.0.0.2'' ''S'' 0] = 1
   \<and> fst (RequisitionNode_IsValid sampleEnv
          (mkNode ''n1'' [mkInterface ''10.0.0.1'' ''P'' 0, mkInterface ''10.0.0.2'' ''S'' 0]))
       = None"
  using primary_interface_limit
      [of "mkNode ''n1'' [mkInterface ''10.0.0.1'' ''P'' 0, mkInterface ''10.0.0.2'' ''P'' 0]"
          sampleEnv]
    primary_interface_limit
      [of "mkNode ''n1'' [mkInterface ''10.0.0.1'' ''P'' 0, mkInterface ''10.0.0.2'' ''S'' 0]"
          sampleEnv]
  by (simp add: sample_defs eval_defs)

theorem primary_interface_limit_counterexample:
  "2 \<le> primaries [mkInterface ''10.0.0.1'' ''P'' 2, mkInterface ''10.0.0.2'' ''P'' 0]
   \<and> fst (RequisitionNode_IsValid sampleEnv
          (mkNode ''n1'' [mkInterface ''10.0.0.1'' ''P'' 2, mkInterface ''10.0.0.2'' ''P'' 0]))
       = Some ''Invalid status for interface 10.0.0.1: 2''
   \<and> fst (RequisitionNode_IsValid sampleEnv
          (mkNode ''n1'' [mkInterface ''10.0.0.1'' ''P'' 2, mkInterface ''10.0.0.2'' ''P'' 0]))
       \<noteq> Some ''Node n1 cannot have more than one primary interface''"
  by (simp add: sample_defs eval_defs)

subsection \<open>Nodes: no two interfaces with the same address\<close>

text \<open>
  Claim C6, as amended. A node with two interfaces carrying the same \<^verbatim>\<open>ipAddress\<close> never
  validates, provided a range over a map visits all its entries. The failure is the
  duplicate-address error, naming a repeated address and the node's label, when the checks
  that come first pass: the node's own field checks, the validation of each interface, and
  the limit of one primary interface. The duplicate error is reported only after every
  interface has validated: when an interface fails and those before it pass, the node fails
  with that interface's error. A node that passes the earlier checks and whose interfaces
  have distinct addresses passes the duplicate check: \<^verbatim>\<open>validateInterfaces\<close> succeeds, and
  the node does not fail with a duplicate-address error.

  As stated, for every node with two interfaces of the same address, the claim fails: the
  count of primary interfaces is tested before the addresses.
\<close>

theorem duplicate_ip_rejected:
  "rangeVisitsAll e \<longrightarrow>
     (\<not> distinct (map intf_IPAddress (node_Interfaces n)) \<longrightarrow> fst (RequisitionNode_IsValid e n) \<noteq> None)
   \<and> (nodeFieldsPass n
        \<and> (\<forall>i \<in> set (node_Interfaces n). fst (RequisitionInterface_IsValid e i) = None)
        \<and> primaries (node_Interfaces n) \<le> 1
        \<and> \<not> distinct (map intf_IPAddress (node_Interfaces n)) \<longrightarrow>
          (\<exists>ip. 1 < count_list (map intf_IPAddress (node_Interfaces n)) ip
             \<and> fst (RequisitionNode_IsValid e n) =
                 Some (''IP Address '' @ ip @ '' is defined more than once on node ''
                        @ effectiveLabel n)))
   \<and> (nodeFieldsPass n \<and> node_Interfaces n = pre @ x # post
        \<and> (\<forall>i \<in> set pre. fst (RequisitionInterface_IsValid e i) = None)
        \<and> fst (RequisitionInterface_IsValid e x) = Some err \<longrightarrow>
          fst (RequisitionNode_IsValid e n) = Some err)
   \<and> (nodeFieldsPass n
        \<and> (\<forall>i \<in> set (node_Interfaces n). fst (RequisitionInterface_IsValid e i) = None)
        \<and> primaries (node_Interfaces n) \<le> 1
        \<and> distinct (map intf_IPAddress (node_Interfaces n)) \<longrightarrow>
          fst (validateInterfaces e (n\<lparr>node_NodeLabel := effectiveLabel n\<rparr>)) = None
          \<and> (\<forall>ip. fst (RequisitionNode_IsValid e n) \<noteq>
                 Some (''IP Address '' @ ip @ '' is defined more than once on node ''
                        @ effectiveLabel n)))"
proof
  assume v: "rangeVisitsAll e"
  let ?n1 = "n\<lparr>node_NodeLabel := effectiveLabel n\<rparr>"
  let ?ips = "map intf_IPAddress (node_Interfaces n)"
  let ?pass = "\<forall>i \<in> set (node_Interfaces n). fst (RequisitionInterface_IsValid e i) = None"
  have dup: "\<exists>ip. 1 < count_list ?ips ip
      \<and> fst (RequisitionNode_IsValid e n) =
           Some (''IP Address '' @ ip @ '' is defined more than once on node '' @ effectiveLabel n)"
    if f: "nodeFieldsPass n" and p: ?pass and c: "primaries (node_Interfaces n) \<le> 1"
      and d: "\<not> distinct ?ips"
  proof -
    from validateInterfaces_duplicates [OF v, of ?n1] p c d
    obtain ip where ip: "1 < count_list ?ips ip"
      "fst (validateInterfaces e ?n1) =
         Some (''IP Address '' @ ip @ '' is defined more than once on node '' @ effectiveLabel n)"
      by auto
    from RequisitionNode_IsValid_interface_error [OF f ip(2)] ip(1) show ?thesis by blast
  qed
  have always: "fst (RequisitionNode_IsValid e n) \<noteq> None" if d: "\<not> distinct ?ips"
  proof (cases "nodeFieldsPass n \<and> ?pass")
    case False
    then show ?thesis
      using RequisitionNode_IsValid_fields_fail [of n e] RequisitionNode_IsValid_some_interface_fails [of n e] by blast
  next
    case True
    show ?thesis
    proof (cases "primaries (node_Interfaces n) \<le> 1")
      case True
      with dup \<open>nodeFieldsPass n \<and> ?pass\<close> d show ?thesis by auto
    next
      case False
      from True have "\<forall>i \<in> set (node_Interfaces ?n1). fst (RequisitionInterface_IsValid e i) = None"
        by simp
      from validateInterfaces_all_pass [OF this] False
      have "fst (validateInterfaces e ?n1) =
              Some (''Node '' @ effectiveLabel n @ '' cannot have more than one primary interface'')"
        by simp
      from RequisitionNode_IsValid_interface_error [OF _ this] True show ?thesis by simp
    qed
  qed
  have first: "fst (RequisitionNode_IsValid e n) = Some err"
    if f: "nodeFieldsPass n" and s: "node_Interfaces n = pre @ x # post"
      and p: "\<forall>i \<in> set pre. fst (RequisitionInterface_IsValid e i) = None"
      and x: "fst (RequisitionInterface_IsValid e x) = Some err"
  proof -
    from s have "node_Interfaces ?n1 = pre @ x # post" by simp
    from validateInterfaces_first_failure [OF this p x]
    have "fst (validateInterfaces e ?n1) = Some err" by simp
    from RequisitionNode_IsValid_interface_error [OF f this] show ?thesis .
  qed
  have nodup: "fst (validateInterfaces e ?n1) = None
      \<and> (\<forall>ip. fst (RequisitionNode_IsValid e n) \<noteq>
             Some (''IP Address '' @ ip @ '' is defined more than once on node '' @ effectiveLabel n))"
    if f: "nodeFieldsPass n" and p: ?pass and c: "primaries (node_Interfaces n) \<le> 1"
      and d: "distinct ?ips"
  proof -
    from validateInterfaces_duplicates [OF v, of ?n1] p c d
    have n: "fst (validateInterfaces e ?n1) = None" by simp
    have "fst (RequisitionNode_IsValid e n) \<noteq>
             Some (''IP Address '' @ ip @ '' is defined more than once on node '' @ effectiveLabel n)"
      for ip
    proof
      assume "fst (RequisitionNode_IsValid e n) =
             Some (''IP Address '' @ ip @ '' is defined more than once on node '' @ effectiveLabel n)"
      from RequisitionNode_IsValid_late_error_shape [OF f n this] show False by simp
    qed
    with n show ?thesis by simp
  qed
  from dup always first nodup
  show "(\<not> distinct ?ips \<longrightarrow> fst (RequisitionNode_IsValid e n) \<noteq> None)
   \<and> (nodeFieldsPass n \<and> ?pass \<and> primaries (node_Interfaces n) \<le> 1 \<and> \<not> distinct ?ips \<longrightarrow>
          (\<exists>ip. 1 < count_list ?ips ip
             \<and> fst (RequisitionNode_IsValid e n) =
                 Some (''IP Address '' @ ip @ '' is defined more than once on node ''
                        @ effectiveLabel n)))
   \<and> (nodeFieldsPass n \<and> node_Interfaces n = pre @ x # post
        \<and> (\<forall>i \<in> set pre. fst (RequisitionInterface_IsValid e i) = None)
        \<and> fst (RequisitionInterface_IsValid e x) = Some err \<longrightarrow>
          fst (RequisitionNode_IsValid e n) = Some err)
   \<and> (nodeFieldsPass n \<and> ?pass \<and> primaries (node_Interfaces n) \<le> 1 \<and> distinct ?ips \<longrightarrow>
          fst (validateInterfaces e ?n1) = None
          \<and> (\<forall>ip. fst (RequisitionNode_IsValid e n) \<noteq>
                 Some (''IP Address '' @ ip @ '' is defined more than once on node ''
                        @ effectiveLabel n)))"
    by blast
qed

theorem duplicate_ip_rejected_witness:
  "rangeVisitsAll sampleEnv
   \<and> nodeFieldsPass (mkNode ''n1'' [mkInterface ''10.0.0.1'' [] 0, mkInterface ''10.0.0.1'' [] 0])
   \<and> fst (RequisitionNode_IsValid sampleEnv
          (mkNode ''n1'' [mkInterface ''10.0.0.1'' [] 0, mkInterface ''10.0.0.1'' [] 0]))
       = Some ''IP Address 10.0.0.1 is defined more than once on node n1''
   \<and> fst (RequisitionNode_IsValid sampleEnv
          (mkNode ''n1'' [mkInterface ''10.0.0.1'' [] 0, mkInterface ''10.0.0.2'' [] 0]))
       = None
   \<and> fst (RequisitionNode_IsValid sampleEnv
          (mkNode ''n1'' [mkInterface ''10.0.0.1'' [] 0, mkInterface ''10.0.0.1'' ''X'' 0]))
       = Some ''Invalid snmp-primary for interface 10.0.0.1: X''"
  using duplicate_ip_rejected
      [of sampleEnv "mkNode ''n1'' [mkInterface ''10.0.0.1'' [] 0, mkInterface ''10.0.0.1'' [] 0]"]
    duplicate_ip_rejected
      [of sampleEnv "mkNode ''n1'' [mkInterface ''10.0.0.1'' [] 0, mkInterface ''10.0.0.2'' [] 0]"]
    duplicate_ip_rejected
      [of sampleEnv "mkNode ''n1'' [mkInterface ''10.0.0.1'' [] 0, mkInterface ''10.0.0.1'' ''X'' 0]"
          "[mkInterface ''10.0.0.1'' [] 0]" "mkInterface ''10.0.0.1'' ''X'' 0" "[]"
          "''Invalid snmp-primary for interface 10.0.0.1: X''"]
    rangeVisitsAll_sampleEnv
  by (simp add: sample_defs eval_defs)

theorem duplicate_ip_rejected_counterexample:
  "\<not> distinct (map intf_IPAddress [mkInterface ''10.0.0.1'' ''P'' 0, mkInterface ''10.0.0.1'' ''P'' 0])
   \<and> fst (RequisitionNode_IsValid sampleEnv
          (mkNode ''n1'' [mkInterface ''10.0.0.1'' ''P'' 0, mkInterface ''10.0.0.1'' ''P'' 0]))
       = Some ''Node n1 cannot have more than one primary interface''
   \<and> fst (RequisitionNode_IsValid sampleEnv
          (mkNode ''n1'' [mkInterface ''10.0.0.1'' ''P'' 0, mkInterface ''10.0.0.1'' ''P'' 0]))
       \<noteq> Some ''IP Address 10.0.0.1 is defined more than once on node n1''"
  by (simp add: sample_defs eval_defs)

subsection \<open>Nodes: duplicates are counted on the addresses as supplied\<close>




subsection \<open>Requisitions: the order of the checks\<close>

text \<open>
  Claim C3. \<^verbatim>\<open>Requisition.IsValid\<close> checks its name first: an empty name fails, then a
  name with a forbidden character fails, and in both cases no node is touched. With a good
  name the nodes are validated in the order of the slice: if a node fails and those before
  it pass, the requisition fails with that node's error wrapped with the label the node
  has after its validation and the requisition's name, the nodes up to that one being
  updated and the later ones untouched, whatever foreign IDs are repeated. Only when every
  node passes are the foreign IDs compared (a range over the map visiting all entries): if
  one occurs more than once the requisition fails with the duplicate error naming such an
  ID, and if they are all distinct it succeeds.
\<close>

theorem requisition_check_order:
  "(req_Name r = [] \<longrightarrow>
      Requisition_IsValid e r = (Some ''Requisition name cannot be empty'', r))
   \<and> (set (req_Name r) \<inter> set forbiddenChars \<noteq> {} \<longrightarrow>
      Requisition_IsValid e r =
        (Some (''Invalid characters on requisition name '' @ req_Name r @ forbiddenTail), r))
   \<and> (req_Name r \<noteq> [] \<and> set (req_Name r) \<inter> set forbiddenChars = {} \<longrightarrow>
        (req_Nodes r = pre @ x # post
          \<and> (\<forall>n \<in> set pre. fst (RequisitionNode_IsValid e n) = None)
          \<and> fst (RequisitionNode_IsValid e x) = Some err \<longrightarrow>
            Requisition_IsValid e r =
              (Some (''Problem on node '' @ node_NodeLabel (snd (RequisitionNode_IsValid e x))
                      @ '' on requisition '' @ req_Name r @ '': '' @ err),
               r\<lparr>req_Nodes := map (\<lambda>n. snd (RequisitionNode_IsValid e n)) pre
                                 @ snd (RequisitionNode_IsValid e x) # post\<rparr>))
      \<and> (rangeVisitsAll e \<and> (\<forall>n \<in> set (req_Nodes r). fst (RequisitionNode_IsValid e n) = None) \<longrightarrow>
            (distinct (map node_ForeignID (req_Nodes r)) \<longrightarrow>
               Requisition_IsValid e r =
                 (None, r\<lparr>req_Nodes := map (\<lambda>n. snd (RequisitionNode_IsValid e n)) (req_Nodes r)\<rparr>))
          \<and> (\<not> distinct (map node_ForeignID (req_Nodes r)) \<longrightarrow>
               (\<exists>fid. 1 < count_list (map node_ForeignID (req_Nodes r)) fid
                  \<and> Requisition_IsValid e r =
                      (Some (''Duplicate Foreign ID '' @ fid @ '' on requisition '' @ req_Name r),
                       r\<lparr>req_Nodes := map (\<lambda>n. snd (RequisitionNode_IsValid e n)) (req_Nodes r)\<rparr>)))))"
proof -
  let ?fids = "map node_ForeignID (req_Nodes r)"
  let ?done = "r\<lparr>req_Nodes := map (\<lambda>n. snd (RequisitionNode_IsValid e n)) (req_Nodes r)\<rparr>"
  have empty: "Requisition_IsValid e r = (Some ''Requisition name cannot be empty'', r)"
    if "req_Name r = []"
    using that by (simp add: Requisition_IsValid_def)
  have chars: "Requisition_IsValid e r =
        (Some (''Invalid characters on requisition name '' @ req_Name r @ forbiddenTail), r)"
    if "set (req_Name r) \<inter> set forbiddenChars \<noteq> {}"
  proof -
    from that have "req_Name r \<noteq> []" by auto
    with that show ?thesis by (simp add: Requisition_IsValid_def matchForbidden_iff)
  qed
  have wrap: "Requisition_IsValid e r =
              (Some (''Problem on node '' @ node_NodeLabel (snd (RequisitionNode_IsValid e x))
                      @ '' on requisition '' @ req_Name r @ '': '' @ err),
               r\<lparr>req_Nodes := map (\<lambda>n. snd (RequisitionNode_IsValid e n)) pre
                                 @ snd (RequisitionNode_IsValid e x) # post\<rparr>)"
    if nm: "req_Name r \<noteq> []" "set (req_Name r) \<inter> set forbiddenChars = {}"
      and s: "req_Nodes r = pre @ x # post"
      and p: "\<forall>n \<in> set pre. fst (RequisitionNode_IsValid e n) = None"
      and x: "fst (RequisitionNode_IsValid e x) = Some err"
  proof -
    obtain res ns ids where l: "nodesLoop e (req_Name r) (pre @ x # post) [] = (res, ns, ids)"
      by (cases "nodesLoop e (req_Name r) (pre @ x # post) []") auto
    from nodesLoop_first_failure [OF p x, of "req_Name r" post "[]"] l
    have "res = Some (''Problem on node '' @ node_NodeLabel (snd (RequisitionNode_IsValid e x))
                      @ '' on requisition '' @ req_Name r @ '': '' @ err)"
      and "ns = map (\<lambda>n. snd (RequisitionNode_IsValid e n)) pre @ snd (RequisitionNode_IsValid e x) # post"
      by simp_all
    with l s show ?thesis unfolding Requisition_IsValid_name_ok [OF nm] by simp
  qed
  have uniq: "Requisition_IsValid e r = (None, ?done)"
    if nm: "req_Name r \<noteq> []" "set (req_Name r) \<inter> set forbiddenChars = {}"
      and v: "rangeVisitsAll e"
      and p: "\<forall>n \<in> set (req_Nodes r). fst (RequisitionNode_IsValid e n) = None"
      and d: "distinct ?fids"
  proof -
    from firstRepeated_tally_None [OF v, of ?fids] d
    have "firstRepeated e (tally ?fids []) = None" by simp
    then show ?thesis
      unfolding Requisition_IsValid_name_ok [OF nm]
      by (simp add: nodesLoop_all_pass [OF p])
  qed
  have dup: "\<exists>fid. 1 < count_list ?fids fid
      \<and> Requisition_IsValid e r =
           (Some (''Duplicate Foreign ID '' @ fid @ '' on requisition '' @ req_Name r), ?done)"
    if nm: "req_Name r \<noteq> []" "set (req_Name r) \<inter> set forbiddenChars = {}"
      and v: "rangeVisitsAll e"
      and p: "\<forall>n \<in> set (req_Nodes r). fst (RequisitionNode_IsValid e n) = None"
      and d: "\<not> distinct ?fids"
  proof -
    from firstRepeated_tally_None [OF v, of ?fids] d
    obtain fid where f: "firstRepeated e (tally ?fids []) = Some fid" by auto
    from firstRepeated_tally_Some [OF v f] have "1 < count_list ?fids fid" .
    moreover have "Requisition_IsValid e r =
           (Some (''Duplicate Foreign ID '' @ fid @ '' on requisition '' @ req_Name r), ?done)"
      unfolding Requisition_IsValid_name_ok [OF nm]
      by (simp add: nodesLoop_all_pass [OF p] f)
    ultimately show ?thesis by blast
  qed
  from empty chars wrap uniq dup show ?thesis by blast
qed

theorem requisition_check_order_witness:
  "Requisition_IsValid sampleEnv \<lparr>req_Name = [], req_Nodes = [mkNode [] []]\<rparr>
     = (Some ''Requisition name cannot be empty'', \<lparr>req_Name = [], req_Nodes = [mkNode [] []]\<rparr>)
   \<and> fst (Requisition_IsValid sampleEnv \<lparr>req_Name = ''a:b'', req_Nodes = [mkNode [] []]\<rparr>)
     = Some (''Invalid characters on requisition name a:b'' @ forbiddenTail)
   \<and> fst (Requisition_IsValid sampleEnv
        \<lparr>req_Name = ''Test'',
         req_Nodes = [mkNode ''n1'' [mkInterface ''10.0.0.1'' [] 0],
                      mkNode ''n2'' [mkInterface [] [] 0],
                      mkNode ''n1'' []]\<rparr>)
     = Some ''Problem on node n2 on requisition Test: IP Address cannot be empty''
   \<and> fst (Requisition_IsValid sampleEnv
        \<lparr>req_Name = ''Test'', req_Nodes = [mkNode ''n1'' [], mkNode ''n1'' []]\<rparr>)
     = Some ''Duplicate Foreign ID n1 on requisition Test''
   \<and> fst (Requisition_IsValid sampleEnv
        \<lparr>req_Name = ''Test'', req_Nodes = [mkNode ''n1'' [], mkNode ''n2'' []]\<rparr>)
     = None"
  using requisition_check_order
      [where r = "\<lparr>req_Name = [], req_Nodes = [mkNode [] []]\<rparr>" and e = sampleEnv]
    requisition_check_order
      [where r = "\<lparr>req_Name = ''a:b'', req_Nodes = [mkNode [] []]\<rparr>" and e = sampleEnv]
    requisition_check_order
      [where r = "\<lparr>req_Name = ''Test'',
                   req_Nodes = [mkNode ''n1'' [mkInterface ''10.0.0.1'' [] 0],
                                mkNode ''n2'' [mkInterface [] [] 0],
                                mkNode ''n1'' []]\<rparr>"
         and e = sampleEnv
         and pre = "[mkNode ''n1'' [mkInterface ''10.0.0.1'' [] 0]]"
         and x = "mkNode ''n2'' [mkInterface [] [] 0]"
         and post = "[mkNode ''n1'' []]"
         and err = "''IP Address cannot be empty''"]
    requisition_check_order
      [where r = "\<lparr>req_Name = ''Test'', req_Nodes = [mkNode ''n1'' [], mkNode ''n1'' []]\<rparr>"
         and e = sampleEnv]
    requisition_check_order
      [where r = "\<lparr>req_Name = ''Test'', req_Nodes = [mkNode ''n1'' [], mkNode ''n2'' []]\<rparr>"
         and e = sampleEnv]
    rangeVisitsAll_sampleEnv
  by (simp add: sample_defs eval_defs Requisition_IsValid_def)

subsection \<open>Nodes: references to the parent\<close>

text \<open>
  Claim C8, as amended. A node with both \<^verbatim>\<open>parentForeignID\<close> and \<^verbatim>\<open>parentNodeLabel\<close>
  set never validates, nor does a node whose \<^verbatim>\<open>parentForeignID\<close> is its own foreign ID or
  whose \<^verbatim>\<open>parentNodeLabel\<close> is its own label after defaulting. When the foreign ID is
  non-empty and free of forbidden characters, the error is decided in this order: both
  references set gives the mutual-exclusion error; otherwise a parent label equal to the
  node's label gives the self-reference error on the label; otherwise a parent foreign ID
  equal to the node's gives the self-reference error on the foreign ID.

  As stated, the claim fails: the foreign ID is checked before the parent references, and
  mutual exclusion is checked before self-reference, so a node with both references set
  whose parent foreign ID is its own fails with the mutual-exclusion error.
\<close>

theorem parent_reference_rules:
  "(node_ParentForeignID n \<noteq> [] \<and> node_ParentNodeLabel n \<noteq> [] \<longrightarrow>
      fst (RequisitionNode_IsValid e n) \<noteq> None)
   \<and> (node_ParentForeignID n = node_ForeignID n \<or> node_ParentNodeLabel n = effectiveLabel n \<longrightarrow>
      fst (RequisitionNode_IsValid e n) \<noteq> None)
   \<and> (node_ForeignID n \<noteq> [] \<and> set (node_ForeignID n) \<inter> set forbiddenChars = {} \<longrightarrow>
        (node_ParentForeignID n \<noteq> [] \<and> node_ParentNodeLabel n \<noteq> [] \<longrightarrow>
           RequisitionNode_IsValid e n =
             (Some (''Cannot set both parent foreign ID and parent node label on node ''
                     @ effectiveLabel n @ '', choose one''),
              n\<lparr>node_NodeLabel := effectiveLabel n\<rparr>))
      \<and> (\<not> (node_ParentForeignID n \<noteq> [] \<and> node_ParentNodeLabel n \<noteq> [])
          \<and> node_ParentNodeLabel n = effectiveLabel n \<longrightarrow>
           RequisitionNode_IsValid e n =
             (Some (''The parent node cannot be the node itself. ''
                     @ ''The parent-nodel-label has to be different than the node-label''),
              n\<lparr>node_NodeLabel := effectiveLabel n\<rparr>))
      \<and> (\<not> (node_ParentForeignID n \<noteq> [] \<and> node_ParentNodeLabel n \<noteq> [])
          \<and> node_ParentNodeLabel n \<noteq> effectiveLabel n
          \<and> node_ParentForeignID n = node_ForeignID n \<longrightarrow>
           RequisitionNode_IsValid e n =
             (Some (''The parent node cannot be the node itself. ''
                     @ ''The parent-foreign-id has to be different than the foreign-id''),
              n\<lparr>node_NodeLabel := effectiveLabel n\<rparr>)))"
proof -
  have a: "fst (RequisitionNode_IsValid e n) \<noteq> None"
    if "node_ParentForeignID n \<noteq> [] \<and> node_ParentNodeLabel n \<noteq> []"
    using that RequisitionNode_IsValid_fields_fail [of n e] by (auto simp: nodeFieldsPass_def)
  have b: "fst (RequisitionNode_IsValid e n) \<noteq> None"
    if "node_ParentForeignID n = node_ForeignID n \<or> node_ParentNodeLabel n = effectiveLabel n"
    using that RequisitionNode_IsValid_fields_fail [of n e] by (auto simp: nodeFieldsPass_def)
  have c: "node_ForeignID n \<noteq> [] \<and> set (node_ForeignID n) \<inter> set forbiddenChars = {} \<longrightarrow>
        (node_ParentForeignID n \<noteq> [] \<and> node_ParentNodeLabel n \<noteq> [] \<longrightarrow>
           RequisitionNode_IsValid e n =
             (Some (''Cannot set both parent foreign ID and parent node label on node ''
                     @ effectiveLabel n @ '', choose one''),
              n\<lparr>node_NodeLabel := effectiveLabel n\<rparr>))
      \<and> (\<not> (node_ParentForeignID n \<noteq> [] \<and> node_ParentNodeLabel n \<noteq> [])
          \<and> node_ParentNodeLabel n = effectiveLabel n \<longrightarrow>
           RequisitionNode_IsValid e n =
             (Some (''The parent node cannot be the node itself. ''
                     @ ''The parent-nodel-label has to be different than the node-label''),
              n\<lparr>node_NodeLabel := effectiveLabel n\<rparr>))
      \<and> (\<not> (node_ParentForeignID n \<noteq> [] \<and> node_ParentNodeLabel n \<noteq> [])
          \<and> node_ParentNodeLabel n \<noteq> effectiveLabel n
          \<and> node_ParentForeignID n = node_ForeignID n \<longrightarrow>
           RequisitionNode_IsValid e n =
             (Some (''The parent node cannot be the node itself. ''
                     @ ''The parent-foreign-id has to be different than the foreign-id''),
              n\<lparr>node_NodeLabel := effectiveLabel n\<rparr>))"
    unfolding RequisitionNode_IsValid_def Let_def label_default matchForbidden_iff
    by auto
  from a b c show ?thesis by blast
qed

theorem parent_reference_rules_witness:
  "fst (RequisitionNode_IsValid sampleEnv (nodeWithParents ''n1'' [] ''n0'' ''core''))
     = Some ''Cannot set both parent foreign ID and parent node label on node n1, choose one''
   \<and> fst (RequisitionNode_IsValid sampleEnv (nodeWithParents ''n1'' [] [] ''n1''))
     = Some (''The parent node cannot be the node itself. ''
              @ ''The parent-nodel-label has to be different than the node-label'')
   \<and> fst (RequisitionNode_IsValid sampleEnv (nodeWithParents ''n1'' ''router'' ''n1'' []))
     = Some (''The parent node cannot be the node itself. ''
              @ ''The parent-foreign-id has to be different than the foreign-id'')"
  using parent_reference_rules [of "nodeWithParents ''n1'' [] ''n0'' ''core''" sampleEnv]
    parent_reference_rules [of "nodeWithParents ''n1'' [] [] ''n1''" sampleEnv]
    parent_reference_rules [of "nodeWithParents ''n1'' ''router'' ''n1'' []" sampleEnv]
  by (simp add: nodeWithParents_def sample_defs eval_defs)

theorem parent_reference_rules_counterexample:
  "node_ParentForeignID (nodeWithParents ''n1'' [] ''n1'' ''core'')
     = node_ForeignID (nodeWithParents ''n1'' [] ''n1'' ''core'')
   \<and> fst (RequisitionNode_IsValid sampleEnv (nodeWithParents ''n1'' [] ''n1'' ''core''))
     = Some ''Cannot set both parent foreign ID and parent node label on node n1, choose one''
   \<and> node_ParentForeignID (nodeWithParents ''a/b'' [] ''n0'' ''core'') \<noteq> []
   \<and> node_ParentNodeLabel (nodeWithParents ''a/b'' [] ''n0'' ''core'') \<noteq> []
   \<and> fst (RequisitionNode_IsValid sampleEnv (nodeWithParents ''a/b'' [] ''n0'' ''core''))
     = Some (''Invalid characters on Foreign ID a/b'' @ forbiddenTail)"
  by (simp add: nodeWithParents_def sample_defs eval_defs)

subsection \<open>Interfaces: addresses that are not literal\<close>

text \<open>
  Claim C2, as amended. Take an interface whose \<^verbatim>\<open>ipAddress\<close> does not parse as a literal
  address. With resolution switched off it never validates, and with resolution switched on
  it never validates when the lookup returns an error or no address. When the three field
  checks that come first pass (address non-empty, status, primary flag):
  with resolution off, \<^verbatim>\<open>IsValid\<close> fails with the message that the value is not a valid
  IPv4 or IPv6 address; with resolution on and a lookup that returns addresses and no
  error, the address is overwritten with the first of them, and \<^verbatim>\<open>IsValid\<close> succeeds
  exactly when the services and the meta-data validate; with resolution on and a failed
  lookup, \<^verbatim>\<open>IsValid\<close> fails with the message that no address could be got, which is a
  different message.

  As stated, for every such interface, the claim fails: an invalid status is reported
  before any address is looked at, and then nothing is resolved or overwritten.
\<close>

theorem address_resolution_rules:
  "\<not> ParseIP e (intf_IPAddress i) \<longrightarrow>
     (\<not> AllowFqdnOnRequisitionedInterfaces e \<longrightarrow> fst (RequisitionInterface_IsValid e i) \<noteq> None)
   \<and> (AllowFqdnOnRequisitionedInterfaces e
        \<and> (snd (LookupIP e (intf_IPAddress i)) \<noteq> None \<or> fst (LookupIP e (intf_IPAddress i)) = [])
        \<longrightarrow> fst (RequisitionInterface_IsValid e i) \<noteq> None)
   \<and> (intf_IPAddress i \<noteq> [] \<and> intf_Status i \<in> {0, 1, 3}
        \<and> intf_SnmpPrimary i \<in> {[], ''P'', ''S'', ''N''} \<longrightarrow>
        (\<not> AllowFqdnOnRequisitionedInterfaces e \<longrightarrow>
           RequisitionInterface_IsValid e i =
             (Some (intf_IPAddress i @ '' is not a valid IPv4 or IPv6 address''), normalized i))
      \<and> (AllowFqdnOnRequisitionedInterfaces e
           \<and> LookupIP e (intf_IPAddress i) = (a # as, None) \<longrightarrow>
           intf_IPAddress (snd (RequisitionInterface_IsValid e i)) = a
           \<and> (fst (RequisitionInterface_IsValid e i) = None \<longleftrightarrow>
                fst (validateServices e i) = None
                \<and> validateMetaDataCopies (intf_MetaData i) = None))
      \<and> (AllowFqdnOnRequisitionedInterfaces e
           \<and> LookupIP e (intf_IPAddress i) = (addresses, err)
           \<and> (err \<noteq> None \<or> addresses = []) \<longrightarrow>
           RequisitionInterface_IsValid e i =
             (Some (''Cannot get address from '' @ intf_IPAddress i
                     @ '' (invalid IP or FQDN); '' @ fmt_err err), normalized i)
           \<and> ''Cannot get address from '' @ intf_IPAddress i
                 @ '' (invalid IP or FQDN); '' @ fmt_err err
               \<noteq> intf_IPAddress i @ '' is not a valid IPv4 or IPv6 address''))"
proof
  assume np: "\<not> ParseIP e (intf_IPAddress i)"
  let ?ip = "intf_IPAddress i"
  let ?ok = "intf_IPAddress i \<noteq> [] \<and> intf_Status i \<in> {0, 1, 3}
        \<and> intf_SnmpPrimary i \<in> {[], ''P'', ''S'', ''N''}"
  have nip: "intf_IPAddress (normalized i) = ?ip" by (simp add: normalized_def)
  have off: "RequisitionInterface_IsValid e i =
             (Some (?ip @ '' is not a valid IPv4 or IPv6 address''), normalized i)"
    if ok: ?ok and t: "\<not> AllowFqdnOnRequisitionedInterfaces e"
  proof -
    from np t have "validateIP e (normalized i) =
        (Some (?ip @ '' is not a valid IPv4 or IPv6 address''), normalized i)"
      by (simp add: validateIP_def nip)
    with ok show ?thesis by (simp add: RequisitionInterface_IsValid_fields_pass)
  qed
  have bad: "RequisitionInterface_IsValid e i =
             (Some (''Cannot get address from '' @ ?ip
                     @ '' (invalid IP or FQDN); '' @ fmt_err err), normalized i)"
    if ok: ?ok and t: "AllowFqdnOnRequisitionedInterfaces e"
      and l: "LookupIP e ?ip = (addresses, err)" and f: "err \<noteq> None \<or> addresses = []"
    for addresses err
  proof -
    from np t l f have "validateIP e (normalized i) =
        (Some (''Cannot get address from '' @ ?ip
                     @ '' (invalid IP or FQDN); '' @ fmt_err err), normalized i)"
      by (auto simp: validateIP_def nip)
    with ok show ?thesis by (simp add: RequisitionInterface_IsValid_fields_pass)
  qed
  have good: "intf_IPAddress (snd (RequisitionInterface_IsValid e i)) = a
           \<and> (fst (RequisitionInterface_IsValid e i) = None \<longleftrightarrow>
                fst (validateServices e i) = None
                \<and> validateMetaDataCopies (intf_MetaData i) = None)"
    if ok: ?ok and t: "AllowFqdnOnRequisitionedInterfaces e"
      and l: "LookupIP e ?ip = (a # as, None)"
  proof -
    let ?i3 = "(normalized i)\<lparr>intf_IPAddress := a\<rparr>"
    from np t l have v: "validateIP e (normalized i) = (None, ?i3)"
      by (simp add: validateIP_def nip)
    obtain r4 i4 where s: "validateServices e ?i3 = (r4, i4)"
      by (cases "validateServices e ?i3")
    from validateServices_fields [of e ?i3] s
    have i4: "intf_IPAddress i4 = a" "intf_MetaData i4 = intf_MetaData i"
      by (simp_all add: normalized_def)
    have "intf_Services i = intf_Services ?i3" by (simp add: normalized_def)
    from validateServices_success_services [OF this, of e] s
    have r4: "fst (validateServices e i) = None \<longleftrightarrow> r4 = None" by simp
    from ok v s i4 r4 show ?thesis
      by (cases r4) (simp_all add: RequisitionInterface_IsValid_fields_pass)
  qed
  have alwaysOff: "fst (RequisitionInterface_IsValid e i) \<noteq> None"
    if t: "\<not> AllowFqdnOnRequisitionedInterfaces e"
  proof (cases ?ok)
    case True
    from off [OF True t] show ?thesis by simp
  next
    case False
    then show ?thesis using RequisitionInterface_IsValid_fields_fail [of i e] by blast
  qed
  have alwaysBad: "fst (RequisitionInterface_IsValid e i) \<noteq> None"
    if t: "AllowFqdnOnRequisitionedInterfaces e"
      and f: "snd (LookupIP e ?ip) \<noteq> None \<or> fst (LookupIP e ?ip) = []"
  proof (cases ?ok)
    case True
    obtain addresses err where l: "LookupIP e ?ip = (addresses, err)"
      by (cases "LookupIP e ?ip")
    with f have "err \<noteq> None \<or> addresses = []" by simp
    from bad [OF True t l this] show ?thesis by simp
  next
    case False
    then show ?thesis using RequisitionInterface_IsValid_fields_fail [of i e] by blast
  qed
  from off bad good alwaysOff alwaysBad resolution_messages_differ [of ?ip "fmt_err err"]
  show "(\<not> AllowFqdnOnRequisitionedInterfaces e \<longrightarrow> fst (RequisitionInterface_IsValid e i) \<noteq> None)
   \<and> (AllowFqdnOnRequisitionedInterfaces e
        \<and> (snd (LookupIP e (intf_IPAddress i)) \<noteq> None \<or> fst (LookupIP e (intf_IPAddress i)) = [])
        \<longrightarrow> fst (RequisitionInterface_IsValid e i) \<noteq> None)
   \<and> (intf_IPAddress i \<noteq> [] \<and> intf_Status i \<in> {0, 1, 3}
        \<and> intf_SnmpPrimary i \<in> {[], ''P'', ''S'', ''N''} \<longrightarrow>
        (\<not> AllowFqdnOnRequisitionedInterfaces e \<longrightarrow>
           RequisitionInterface_IsValid e i =
             (Some (intf_IPAddress i @ '' is not a valid IPv4 or IPv6 address''), normalized i))
      \<and> (AllowFqdnOnRequisitionedInterfaces e
           \<and> LookupIP e (intf_IPAddress i) = (a # as, None) \<longrightarrow>
           intf_IPAddress (snd (RequisitionInterface_IsValid e i)) = a
           \<and> (fst (RequisitionInterface_IsValid e i) = None \<longleftrightarrow>
                fst (validateServices e i) = None
                \<and> validateMetaDataCopies (intf_MetaData i) = None))
      \<and> (AllowFqdnOnRequisitionedInterfaces e
           \<and> LookupIP e (intf_IPAddress i) = (addresses, err)
           \<and> (err \<noteq> None \<or> addresses = []) \<longrightarrow>
           RequisitionInterface_IsValid e i =
             (Some (''Cannot get address from '' @ intf_IPAddress i
                     @ '' (invalid IP or FQDN); '' @ fmt_err err), normalized i)
           \<and> ''Cannot get address from '' @ intf_IPAddress i
                 @ '' (invalid IP or FQDN); '' @ fmt_err err
               \<noteq> intf_IPAddress i @ '' is not a valid IPv4 or IPv6 address''))"
    by blast
qed

theorem address_resolution_rules_witness:
  "\<not> ParseIP sampleEnv ''not-an-ip''
   \<and> RequisitionInterface_IsValid sampleEnvNoFqdn (mkInterface ''not-an-ip'' [] 0)
       = (Some ''not-an-ip is not a valid IPv4 or IPv6 address'',
          mkInterface ''not-an-ip'' ''N'' 1)
   \<and> RequisitionInterface_IsValid sampleEnv (mkInterface ''hostA'' [] 0)
       = (None, mkInterface ''10.0.0.1'' ''N'' 1)
   \<and> RequisitionInterface_IsValid sampleEnv (mkInterface ''not-an-ip'' [] 0)
       = (Some (''Cannot get address from not-an-ip (invalid IP or FQDN); ''
                 @ ''lookup not-an-ip: no such host''),
          mkInterface ''not-an-ip'' ''N'' 1)"
  using address_resolution_rules
      [where e = sampleEnvNoFqdn and i = "mkInterface ''not-an-ip'' [] 0"]
    address_resolution_rules
      [where e = sampleEnv and i = "mkInterface ''hostA'' [] 0" and a = "''10.0.0.1''"
         and as = "[]"]
    address_resolution_rules
      [where e = sampleEnv and i = "mkInterface ''not-an-ip'' [] 0" and addresses = "[]"
         and err = "Some ''lookup not-an-ip: no such host''"]
  by (simp add: sample_defs eval_defs normalized_def fmt_err_def)

theorem address_resolution_rules_counterexample:
  "\<not> ParseIP sampleEnvNoFqdn ''not-an-ip''
   \<and> \<not> AllowFqdnOnRequisitionedInterfaces sampleEnvNoFqdn
   \<and> fst (RequisitionInterface_IsValid sampleEnvNoFqdn (mkInterface ''not-an-ip'' [] 2))
       = Some ''Invalid status for interface not-an-ip: 2''
   \<and> \<not> ParseIP sampleEnv ''hostA''
   \<and> AllowFqdnOnRequisitionedInterfaces sampleEnv
   \<and> LookupIP sampleEnv ''hostA'' = ([''10.0.0.1''], None)
   \<and> RequisitionInterface_IsValid sampleEnv (mkInterface ''hostA'' [] 2)
       = (Some ''Invalid status for interface hostA: 2'', mkInterface ''hostA'' [] 2)"
  by (simp add: sample_defs eval_defs)

subsection \<open>Forbidden characters in names\<close>

text \<open>
  Claim C5. The forbidden characters are slash, backslash, question mark, colon, ampersand,
  star, apostrophe and double quote. A service name, an asset name, a category name, a
  node's foreign ID or a requisition's name that contains one of them makes the
  corresponding \<^verbatim>\<open>IsValid\<close> fail with the message \<open>Invalid characters on\<close>, the
  kind of field, the offending value, and a tail that lists all eight characters; the
  receiver is left as it was. A field that contains none of them never produces that
  message, whatever else fails.
\<close>

theorem forbidden_characters_rejected:
  "set forbiddenChars =
     {CHR ''/'', CHR 0x5C, CHR ''?'', CHR '':'', CHR ''&'', CHR ''*'', CHR 0x27, CHR 0x22}
   \<and> set forbiddenChars \<subseteq> set forbiddenTail
   \<and> (set (svc_Name s) \<inter> set forbiddenChars \<noteq> {} \<longrightarrow>
        RequisitionMonitoredService_IsValid s =
          (Some (''Invalid characters on service name '' @ svc_Name s @ forbiddenTail), s))
   \<and> (set (svc_Name s) \<inter> set forbiddenChars = {} \<longrightarrow>
        fst (RequisitionMonitoredService_IsValid s) \<noteq>
          Some (''Invalid characters on service name '' @ svc_Name s @ forbiddenTail))
   \<and> (set (asset_Name a) \<inter> set forbiddenChars \<noteq> {} \<longrightarrow>
        RequisitionAsset_IsValid a =
          Some (''Invalid characters on asset name '' @ asset_Name a @ forbiddenTail))
   \<and> (set (asset_Name a) \<inter> set forbiddenChars = {} \<longrightarrow>
        RequisitionAsset_IsValid a \<noteq>
          Some (''Invalid characters on asset name '' @ asset_Name a @ forbiddenTail))
   \<and> (set (cat_Name c) \<inter> set forbiddenChars \<noteq> {} \<longrightarrow>
        RequisitionCategory_IsValid c =
          Some (''Invalid characters on category name '' @ cat_Name c @ forbiddenTail))
   \<and> (set (cat_Name c) \<inter> set forbiddenChars = {} \<longrightarrow>
        RequisitionCategory_IsValid c \<noteq>
          Some (''Invalid characters on category name '' @ cat_Name c @ forbiddenTail))
   \<and> (set (node_ForeignID n) \<inter> set forbiddenChars \<noteq> {} \<longrightarrow>
        RequisitionNode_IsValid e n =
          (Some (''Invalid characters on Foreign ID '' @ node_ForeignID n @ forbiddenTail), n))
   \<and> (set (node_ForeignID n) \<inter> set forbiddenChars = {} \<longrightarrow>
        fst (RequisitionNode_IsValid e n) \<noteq>
          Some (''Invalid characters on Foreign ID '' @ node_ForeignID n @ forbiddenTail))
   \<and> (set (req_Name r) \<inter> set forbiddenChars \<noteq> {} \<longrightarrow>
        Requisition_IsValid e r =
          (Some (''Invalid characters on requisition name '' @ req_Name r @ forbiddenTail), r))
   \<and> (set (req_Name r) \<inter> set forbiddenChars = {} \<longrightarrow>
        fst (Requisition_IsValid e r) \<noteq>
          Some (''Invalid characters on requisition name '' @ req_Name r @ forbiddenTail))"
proof -
  have ne: "x \<noteq> []" if "set x \<inter> set forbiddenChars \<noteq> {}" for x :: string
    using that by auto
  have svc: "RequisitionMonitoredService_IsValid s =
          (Some (''Invalid characters on service name '' @ svc_Name s @ forbiddenTail), s)"
    if "set (svc_Name s) \<inter> set forbiddenChars \<noteq> {}"
    using that ne [OF that] by (simp add: RequisitionMonitoredService_IsValid_def matchForbidden_iff)
  have asset: "RequisitionAsset_IsValid a =
          Some (''Invalid characters on asset name '' @ asset_Name a @ forbiddenTail)"
    if "set (asset_Name a) \<inter> set forbiddenChars \<noteq> {}"
    using that ne [OF that] by (simp add: RequisitionAsset_IsValid_def matchForbidden_iff)
  have assetn: "RequisitionAsset_IsValid a \<noteq>
          Some (''Invalid characters on asset name '' @ asset_Name a @ forbiddenTail)"
    if "set (asset_Name a) \<inter> set forbiddenChars = {}"
    using that by (simp add: RequisitionAsset_IsValid_def matchForbidden_iff)
  have cat: "RequisitionCategory_IsValid c =
          Some (''Invalid characters on category name '' @ cat_Name c @ forbiddenTail)"
    if "set (cat_Name c) \<inter> set forbiddenChars \<noteq> {}"
    using that ne [OF that] by (simp add: RequisitionCategory_IsValid_def matchForbidden_iff)
  have catn: "RequisitionCategory_IsValid c \<noteq>
          Some (''Invalid characters on category name '' @ cat_Name c @ forbiddenTail)"
    if "set (cat_Name c) \<inter> set forbiddenChars = {}"
    using that by (simp add: RequisitionCategory_IsValid_def matchForbidden_iff)
  have node: "RequisitionNode_IsValid e n =
          (Some (''Invalid characters on Foreign ID '' @ node_ForeignID n @ forbiddenTail), n)"
    if "set (node_ForeignID n) \<inter> set forbiddenChars \<noteq> {}"
    using that ne [OF that] by (simp add: RequisitionNode_IsValid_def matchForbidden_iff)
  have req: "Requisition_IsValid e r =
          (Some (''Invalid characters on requisition name '' @ req_Name r @ forbiddenTail), r)"
    if "set (req_Name r) \<inter> set forbiddenChars \<noteq> {}"
    using that ne [OF that] by (simp add: Requisition_IsValid_def matchForbidden_iff)
  from svc asset assetn cat catn node req forbiddenChars_set forbiddenTail_lists_all
    MonitoredService_not_name_message [of s] RequisitionNode_IsValid_not_foreignID_message [of n e]
    Requisition_IsValid_not_name_message [of r e]
  show ?thesis by blast
qed

theorem forbidden_characters_rejected_witness:
  "RequisitionMonitoredService_IsValid \<lparr>svc_Name = ''HTTP/8080'', svc_MetaData = []\<rparr>
     = (Some (''Invalid characters on service name HTTP/8080'' @ forbiddenTail),
        \<lparr>svc_Name = ''HTTP/8080'', svc_MetaData = []\<rparr>)
   \<and> RequisitionAsset_IsValid \<lparr>asset_Name = ''what?'', asset_Value = ''v''\<rparr>
     = Some (''Invalid characters on asset name what?'' @ forbiddenTail)
   \<and> RequisitionCategory_IsValid \<lparr>cat_Name = ''Routers*''\<rparr>
     = Some (''Invalid characters on category name Routers*'' @ forbiddenTail)
   \<and> fst (RequisitionNode_IsValid sampleEnv (mkNode ''n:1'' []))
     = Some (''Invalid characters on Foreign ID n:1'' @ forbiddenTail)
   \<and> fst (Requisition_IsValid sampleEnv \<lparr>req_Name = ''R&D'', req_Nodes = []\<rparr>)
     = Some (''Invalid characters on requisition name R&D'' @ forbiddenTail)
   \<and> fst (RequisitionMonitoredService_IsValid \<lparr>svc_Name = ''ICMP'', svc_MetaData = []\<rparr>) = None
   \<and> RequisitionAsset_IsValid \<lparr>asset_Name = ''city'', asset_Value = ''v''\<rparr> = None
   \<and> RequisitionCategory_IsValid \<lparr>cat_Name = ''Routers''\<rparr> = None
   \<and> fst (RequisitionNode_IsValid sampleEnv (mkNode ''n1'' [])) = None
   \<and> fst (Requisition_IsValid sampleEnv \<lparr>req_Name = ''Test'', req_Nodes = []\<rparr>) = None"
  using forbidden_characters_rejected
      [where s = "\<lparr>svc_Name = ''HTTP/8080'', svc_MetaData = []\<rparr>"
         and a = "\<lparr>asset_Name = ''what?'', asset_Value = ''v''\<rparr>"
         and c = "\<lparr>cat_Name = ''Routers*''\<rparr>"
         and n = "mkNode ''n:1'' []"
         and r = "\<lparr>req_Name = ''R&D'', req_Nodes = []\<rparr>"
         and e = sampleEnv]
    forbidden_characters_rejected
      [where s = "\<lparr>svc_Name = ''ICMP'', svc_MetaData = []\<rparr>"
         and a = "\<lparr>asset_Name = ''city'', asset_Value = ''v''\<rparr>"
         and c = "\<lparr>cat_Name = ''Routers''\<rparr>"
         and n = "mkNode ''n1'' []"
         and r = "\<lparr>req_Name = ''Test'', req_Nodes = []\<rparr>"
         and e = sampleEnv]
  by (simp add: sample_defs eval_defs RequisitionMonitoredService_IsValid_def RequisitionAsset_IsValid_def
        RequisitionCategory_IsValid_def Requisition_IsValid_def)

subsection \<open>Defaults after a successful validation\<close>

text \<open>
  Claim C1. After a successful \<^verbatim>\<open>IsValid\<close> on the root, every meta-data entry whose
  context was empty should have the context \<open>requisition\<close>. The code does this for the
  meta-data of a node and of a service, whose loops validate each entry in place
  (\<^verbatim>\<open>m := &n.MetaData[i]\<close>), but the loop over an interface's own meta-data validates a copy
  of each entry (\<^verbatim>\<open>m := intf.MetaData[i]\<close>). So \<^verbatim>\<open>RequisitionInterface.IsValid\<close> never
  changes the interface's meta-data. On the requisition \<open>Test\<close> with the node \<open>n1\<close> and
  the interface 10.0.0.1 carrying the entry \<open>owner = ops\<close> with no context, validation
  succeeds, the status becomes 1, the primary flag \<open>N\<close> and the node label \<open>n1\<close>, and
  the entry still has an empty context. The same entry on the node, or on a service of the
  interface, comes back with the context \<open>requisition\<close>. The requisition of the claim,
  which has no meta-data, validates with the defaults the claim gives.
\<close>

theorem interface_metadata_context_not_defaulted:
  "intf_MetaData (snd (RequisitionInterface_IsValid e i)) = intf_MetaData i
   \<and> md_Context ownerEntry = []
   \<and> Requisition_IsValid sampleEnv
       \<lparr>req_Name = ''Test'',
        req_Nodes = [mkNode ''n1''
                       [(mkInterface ''10.0.0.1'' [] 0)\<lparr>intf_MetaData := [ownerEntry]\<rparr>]]\<rparr>
     = (None,
        \<lparr>req_Name = ''Test'',
         req_Nodes = [(mkNode ''n1''
                         [(mkInterface ''10.0.0.1'' ''N'' 1)\<lparr>intf_MetaData := [ownerEntry]\<rparr>])
                        \<lparr>node_NodeLabel := ''n1''\<rparr>]\<rparr>)
   \<and> Requisition_IsValid sampleEnv
       \<lparr>req_Name = ''Test'',
        req_Nodes = [(mkNode ''n1'' [mkInterface ''10.0.0.1'' [] 0])
                       \<lparr>node_MetaData := [ownerEntry]\<rparr>]\<rparr>
     = (None,
        \<lparr>req_Name = ''Test'',
         req_Nodes = [(mkNode ''n1'' [mkInterface ''10.0.0.1'' ''N'' 1])
                        \<lparr>node_NodeLabel := ''n1'',
                          node_MetaData := [ownerEntry\<lparr>md_Context := ''requisition''\<rparr>]\<rparr>]\<rparr>)
   \<and> Requisition_IsValid sampleEnv
       \<lparr>req_Name = ''Test'',
        req_Nodes = [mkNode ''n1''
                       [(mkInterface ''10.0.0.1'' [] 0)
                          \<lparr>intf_Services :=
                             [\<lparr>svc_Name = ''ICMP'', svc_MetaData = [ownerEntry]\<rparr>]\<rparr>]]\<rparr>
     = (None,
        \<lparr>req_Name = ''Test'',
         req_Nodes = [(mkNode ''n1''
                         [(mkInterface ''10.0.0.1'' ''N'' 1)
                            \<lparr>intf_Services :=
                               [\<lparr>svc_Name = ''ICMP'',
                                 svc_MetaData =
                                   [ownerEntry\<lparr>md_Context := ''requisition''\<rparr>]\<rparr>]\<rparr>])
                        \<lparr>node_NodeLabel := ''n1''\<rparr>]\<rparr>)
   \<and> Requisition_IsValid sampleEnv
       \<lparr>req_Name = ''Test'', req_Nodes = [mkNode ''n1'' [mkInterface ''10.0.0.1'' [] 0]]\<rparr>
     = (None,
        \<lparr>req_Name = ''Test'',
         req_Nodes = [(mkNode ''n1'' [mkInterface ''10.0.0.1'' ''N'' 1])
                        \<lparr>node_NodeLabel := ''n1''\<rparr>]\<rparr>)"
proof -
  have "intf_MetaData (snd (RequisitionInterface_IsValid e i)) = intf_MetaData i"
    by (rule RequisitionInterface_IsValid_keeps_MetaData)
  moreover have "md_Context ownerEntry = []" by (simp add: ownerEntry_def)
  moreover have "Requisition_IsValid sampleEnv
       \<lparr>req_Name = ''Test'',
        req_Nodes = [mkNode ''n1''
                       [(mkInterface ''10.0.0.1'' [] 0)\<lparr>intf_MetaData := [ownerEntry]\<rparr>]]\<rparr>
     = (None,
        \<lparr>req_Name = ''Test'',
         req_Nodes = [(mkNode ''n1''
                         [(mkInterface ''10.0.0.1'' ''N'' 1)\<lparr>intf_MetaData := [ownerEntry]\<rparr>])
                        \<lparr>node_NodeLabel := ''n1''\<rparr>]\<rparr>)"
    by (simp add: sample_defs eval_defs Requisition_IsValid_def RequisitionMetaData_IsValid_def ownerEntry_def)
  moreover have "Requisition_IsValid sampleEnv
       \<lparr>req_Name = ''Test'',
        req_Nodes = [(mkNode ''n1'' [mkInterface ''10.0.0.1'' [] 0])
                       \<lparr>node_MetaData := [ownerEntry]\<rparr>]\<rparr>
     = (None,
        \<lparr>req_Name = ''Test'',
         req_Nodes = [(mkNode ''n1'' [mkInterface ''10.0.0.1'' ''N'' 1])
                        \<lparr>node_NodeLabel := ''n1'',
                          node_MetaData := [ownerEntry\<lparr>md_Context := ''requisition''\<rparr>]\<rparr>]\<rparr>)"
    by (simp add: sample_defs eval_defs Requisition_IsValid_def RequisitionMetaData_IsValid_def ownerEntry_def)
  moreover have "Requisition_IsValid sampleEnv
       \<lparr>req_Name = ''Test'',
        req_Nodes = [mkNode ''n1''
                       [(mkInterface ''10.0.0.1'' [] 0)
                          \<lparr>intf_Services :=
                             [\<lparr>svc_Name = ''ICMP'', svc_MetaData = [ownerEntry]\<rparr>]\<rparr>]]\<rparr>
     = (None,
        \<lparr>req_Name = ''Test'',
         req_Nodes = [(mkNode ''n1''
                         [(mkInterface ''10.0.0.1'' ''N'' 1)
                            \<lparr>intf_Services :=
                               [\<lparr>svc_Name = ''ICMP'',
                                 svc_MetaData =
                                   [ownerEntry\<lparr>md_Context := ''requisition''\<rparr>]\<rparr>]\<rparr>])
                        \<lparr>node_NodeLabel := ''n1''\<rparr>]\<rparr>)"
    by (simp add: sample_defs eval_defs Requisition_IsValid_def RequisitionMetaData_IsValid_def
          RequisitionMonitoredService_IsValid_def ownerEntry_def)
  moreover have "Requisition_IsValid sampleEnv
       \<lparr>req_Name = ''Test'', req_Nodes = [mkNode ''n1'' [mkInterface ''10.0.0.1'' [] 0]]\<rparr>
     = (None,
        \<lparr>req_Name = ''Test'',
         req_Nodes = [(mkNode ''n1'' [mkInterface ''10.0.0.1'' ''N'' 1])
                        \<lparr>node_NodeLabel := ''n1''\<rparr>]\<rparr>)"
    by (simp add: sample_defs eval_defs Requisition_IsValid_def)
  ultimately show ?thesis by (intro conjI)
qed

end
